theory Spec2Isabelle
  imports Main "HOL-Library.Word"
begin

unbundle bit_operations_syntax

section \<open>Chrome Cache files: a shallow embedding of \<open>dtformats/chrome_cache.py\<close>\<close>

text \<open>
  Python integers are modelled as \<open>int\<close> or \<open>nat\<close> with the masks of the source written
  out; values read from a file as \<open>uint32\<close> are \<open>32 word\<close>; a byte string is an
  \<open>8 word list\<close>; a unicode string is the list of its code points. Every exception the
  source can raise is a value of type \<open>error\<close>, and a function that can raise returns
  \<open>error + 'a\<close>.
\<close>

subsection \<open>Errors and log records\<close>

datatype parse_error =
    MissingIndexFile
  | UnsupportedSignature "32 word"
  | UnsupportedVersion string
  | UnableToReadStructure
  | MissingDataBlockFiles

datatype error =
    ParseError parse_error
  | IndexError
  | TypeError
  | AttributeError
  | UnicodeEncodeError
  | OverflowError

type_synonym byte = "8 word"
type_synonym unicode = "nat list"

subsection \<open>String formatting\<close>

definition digit_char :: "nat \<Rightarrow> char" where
  "digit_char d = ''0123456789abcdef'' ! (d mod 16)"

text \<open>\<open>u'{0:d}'.format(n)\<close> for a non-negative integer.\<close>

function format_d :: "nat \<Rightarrow> string" where
  "format_d n = (if n < 10 then [digit_char n] else format_d (n div 10) @ [digit_char (n mod 10)])"
  by pat_completeness auto
termination
  by (relation "measure id") auto

function format_x :: "nat \<Rightarrow> string" where
  "format_x n = (if n < 16 then [digit_char n] else format_x (n div 16) @ [digit_char (n mod 16)])"
  by pat_completeness auto
termination
  by (relation "measure id") auto

text \<open>\<open>u'{0:06x}'.format(n)\<close>: hexadecimal, padded with zeros to at least six digits.\<close>

definition format_06x :: "nat \<Rightarrow> string" where
  "format_06x n = replicate (6 - length (format_x n)) (CHR ''0'') @ format_x n"

declare format_d.simps [simp del]
declare format_x.simps [simp del]

subsection \<open>SuperFastHash\<close>

definition ord :: "byte \<Rightarrow> int" where
  "ord b = uint b"

text \<open>\<open>ord(key[i])\<close>: indexing a byte string beyond its end raises \<open>IndexError\<close>.\<close>

definition key_at :: "byte list \<Rightarrow> nat \<Rightarrow> error + int" where
  "key_at key i = (if i < length key then Inr (ord (key ! i)) else Inl IndexError)"

text \<open>The body of the \<open>for key_index in xrange(0, key_length, 4)\<close> loop.\<close>

definition hash_group :: "int \<Rightarrow> int \<Rightarrow> int \<Rightarrow> int \<Rightarrow> int \<Rightarrow> int" where
  "hash_group hash_value k0 k1 k2 k3 =
     (let hash_value = (hash_value + k0 + push_bit 8 k1) AND 0xffffffff;
          temp_value = k2 + push_bit 8 k3;
          temp_value = (push_bit 11 temp_value AND 0xffffffff) XOR hash_value;
          hash_value = (push_bit 16 hash_value AND 0xffffffff) XOR temp_value;
          hash_value = (hash_value + drop_bit 11 hash_value) AND 0xffffffff
      in hash_value)"

function hash_loop :: "byte list \<Rightarrow> nat \<Rightarrow> nat \<Rightarrow> int \<Rightarrow> error + int" where
  "hash_loop key key_index key_length hash_value =
     (if key_index < key_length then
        (case key_at key key_index of Inl e \<Rightarrow> Inl e | Inr k0 \<Rightarrow>
        (case key_at key (key_index + 1) of Inl e \<Rightarrow> Inl e | Inr k1 \<Rightarrow>
        (case key_at key (key_index + 2) of Inl e \<Rightarrow> Inl e | Inr k2 \<Rightarrow>
        (case key_at key (key_index + 3) of Inl e \<Rightarrow> Inl e | Inr k3 \<Rightarrow>
           hash_loop key (key_index + 4) key_length (hash_group hash_value k0 k1 k2 k3)))))
      else Inr hash_value)"
  by pat_completeness auto
termination
  by (relation "measure (\<lambda>(key, key_index, key_length, hash_value). key_length - key_index)") auto

declare hash_loop.simps [simp del]

definition hash_remainder3 :: "int \<Rightarrow> int \<Rightarrow> int \<Rightarrow> int \<Rightarrow> int" where
  "hash_remainder3 hash_value k0 k1 k2 =
     (let hash_value = (hash_value + k0 + push_bit 8 k1) AND 0xffffffff;
          hash_value = hash_value XOR (push_bit 16 hash_value AND 0xffffffff);
          hash_value = hash_value XOR (push_bit 18 k2 AND 0xffffffff);
          hash_value = (hash_value + drop_bit 11 hash_value) AND 0xffffffff
      in hash_value)"

definition hash_remainder2 :: "int \<Rightarrow> int \<Rightarrow> int \<Rightarrow> int" where
  "hash_remainder2 hash_value k0 k1 =
     (let hash_value = (hash_value + k0 + push_bit 8 k1) AND 0xffffffff;
          hash_value = hash_value XOR (push_bit 11 hash_value AND 0xffffffff);
          hash_value = (hash_value + drop_bit 17 hash_value) AND 0xffffffff
      in hash_value)"

definition hash_remainder1 :: "int \<Rightarrow> int \<Rightarrow> int" where
  "hash_remainder1 hash_value k0 =
     (let hash_value = (hash_value + k0) AND 0xffffffff;
          hash_value = hash_value XOR (push_bit 10 hash_value AND 0xffffffff);
          hash_value = (hash_value + drop_bit 1 hash_value) AND 0xffffffff
      in hash_value)"

text \<open>Force "avalanching" of final 127 bits.\<close>

definition hash_avalanche :: "int \<Rightarrow> int" where
  "hash_avalanche hash_value =
     (let hash_value = hash_value XOR (push_bit 3 hash_value AND 0xffffffff);
          hash_value = (hash_value + drop_bit 5 hash_value) AND 0xffffffff;
          hash_value = hash_value XOR (push_bit 4 hash_value AND 0xffffffff);
          hash_value = (hash_value + drop_bit 17 hash_value) AND 0xffffffff;
          hash_value = hash_value XOR (push_bit 25 hash_value AND 0xffffffff);
          hash_value = (hash_value + drop_bit 6 hash_value) AND 0xffffffff
      in hash_value)"

text \<open>The \<open>if remainder == 3: ... elif remainder == 2: ... elif remainder == 1: ...\<close> block.\<close>

definition hash_remainder :: "byte list \<Rightarrow> nat \<Rightarrow> nat \<Rightarrow> int \<Rightarrow> error + int" where
  "hash_remainder key key_index remainder hash_value =
     (if remainder = 3 then
        (case key_at key key_index of Inl e \<Rightarrow> Inl e | Inr k0 \<Rightarrow>
        (case key_at key (key_index + 1) of Inl e \<Rightarrow> Inl e | Inr k1 \<Rightarrow>
        (case key_at key (key_index + 2) of Inl e \<Rightarrow> Inl e | Inr k2 \<Rightarrow>
           Inr (hash_remainder3 hash_value k0 k1 k2))))
      else if remainder = 2 then
        (case key_at key key_index of Inl e \<Rightarrow> Inl e | Inr k0 \<Rightarrow>
        (case key_at key (key_index + 1) of Inl e \<Rightarrow> Inl e | Inr k1 \<Rightarrow>
           Inr (hash_remainder2 hash_value k0 k1)))
      else if remainder = 1 then
        (case key_at key key_index of Inl e \<Rightarrow> Inl e | Inr k0 \<Rightarrow>
           Inr (hash_remainder1 hash_value k0))
      else Inr hash_value)"

definition SuperFastHash :: "byte list \<Rightarrow> error + int" where
  "SuperFastHash key =
     (if key = [] then Inr 0
      else
        let key_length = length key;
            hash_value = int key_length AND 0xffffffff;
            remainder = key_length mod 4;
            key_length = key_length - remainder
        in (case hash_loop key 0 key_length hash_value of Inl e \<Rightarrow> Inl e | Inr hash_value \<Rightarrow>
           (case hash_remainder key key_length remainder hash_value of Inl e \<Rightarrow> Inl e
            | Inr hash_value \<Rightarrow> Inr (hash_avalanche hash_value))))"

text \<open>
  The hash as the specification words it, on unsigned 32-bit words whose arithmetic wraps
  around: the length as the initial value, one fold per full group of four bytes (two
  little-endian 16-bit halves), a tail step chosen by the number of trailing bytes, and
  the avalanche with the shifts 3, 5, 4, 17, 25, 6.
\<close>

definition le16 :: "byte \<Rightarrow> byte \<Rightarrow> 32 word" where
  "le16 lo hi = ucast lo + push_bit 8 (ucast hi)"

definition spec_fold_group :: "32 word \<Rightarrow> byte \<Rightarrow> byte \<Rightarrow> byte \<Rightarrow> byte \<Rightarrow> 32 word" where
  "spec_fold_group h b0 b1 b2 b3 =
     (let h = h + le16 b0 b1;
          t = push_bit 11 (le16 b2 b3) XOR h;
          h = push_bit 16 h XOR t
      in h + drop_bit 11 h)"

fun spec_tail :: "32 word \<Rightarrow> byte list \<Rightarrow> 32 word" where
  "spec_tail h [b0, b1, b2] =
     (let h = h + le16 b0 b1;
          h = h XOR push_bit 16 h;
          h = h XOR push_bit 18 (ucast b2)
      in h + drop_bit 11 h)"
| "spec_tail h [b0, b1] =
     (let h = h + le16 b0 b1;
          h = h XOR push_bit 11 h
      in h + drop_bit 17 h)"
| "spec_tail h [b0] =
     (let h = h + ucast b0;
          h = h XOR push_bit 10 h
      in h + drop_bit 1 h)"
| "spec_tail h bs = h"

fun spec_groups :: "32 word \<Rightarrow> byte list \<Rightarrow> 32 word" where
  "spec_groups h (b0 # b1 # b2 # b3 # bs) = spec_groups (spec_fold_group h b0 b1 b2 b3) bs"
| "spec_groups h bs = spec_tail h bs"

definition spec_avalanche :: "32 word \<Rightarrow> 32 word" where
  "spec_avalanche h =
     (let h = h XOR push_bit 3 h;
          h = h + drop_bit 5 h;
          h = h XOR push_bit 4 h;
          h = h + drop_bit 17 h;
          h = h XOR push_bit 25 h
      in h + drop_bit 6 h)"

definition spec_hash :: "byte list \<Rightarrow> 32 word" where
  "spec_hash key = (if key = [] then 0 else spec_avalanche (spec_groups (of_nat (length key)) key))"

text \<open>The loop and the remainder block together, from any group boundary of the key.\<close>

definition hash_rest :: "byte list \<Rightarrow> nat \<Rightarrow> int \<Rightarrow> error + int" where
  "hash_rest key key_index hash_value =
     (case hash_loop key key_index (length key - length key mod 4) hash_value of Inl e \<Rightarrow> Inl e
      | Inr hash_value \<Rightarrow>
          hash_remainder key (length key - length key mod 4) (length key mod 4) hash_value)"

subsection \<open>CacheAddress\<close>

record CacheAddress =
  block_number :: "nat option"
  block_offset :: "nat option"
  block_size :: "nat option"
  filename :: "string option"
  is_initialized :: bool
  addr_value :: "32 word"
  file_type :: nat

definition FILE_TYPE_SEPARATE :: nat where "FILE_TYPE_SEPARATE = 0"
definition FILE_TYPE_BLOCK_RANKINGS :: nat where "FILE_TYPE_BLOCK_RANKINGS = 1"
definition FILE_TYPE_BLOCK_256 :: nat where "FILE_TYPE_BLOCK_256 = 2"
definition FILE_TYPE_BLOCK_1024 :: nat where "FILE_TYPE_BLOCK_1024 = 3"
definition FILE_TYPE_BLOCK_4096 :: nat where "FILE_TYPE_BLOCK_4096 = 4"

definition BLOCK_DATA_FILE_TYPES :: "nat list" where
  "BLOCK_DATA_FILE_TYPES =
     [FILE_TYPE_BLOCK_RANKINGS, FILE_TYPE_BLOCK_256, FILE_TYPE_BLOCK_1024, FILE_TYPE_BLOCK_4096]"

definition FILE_TYPE_BLOCK_SIZES :: "nat list" where
  "FILE_TYPE_BLOCK_SIZES = [0, 36, 256, 1024, 4096]"

text \<open>Indexing a tuple: beyond its end Python raises \<open>IndexError\<close>.\<close>

definition tuple_index :: "'a list \<Rightarrow> nat \<Rightarrow> error + 'a" where
  "tuple_index xs i = (if i < length xs then Inr (xs ! i) else Inl IndexError)"

text \<open>\<open>CacheAddress.__init__\<close>. The argument is a value read as \<open>uint32\<close>.\<close>

definition CacheAddress_init :: "32 word \<Rightarrow> error + CacheAddress" where
  "CacheAddress_init cache_address =
     (let self = \<lparr>block_number = None, block_offset = None, block_size = None,
                   filename = None, is_initialized = False, addr_value = cache_address,
                   file_type = 0\<rparr>;
          self = (if cache_address AND 0x80000000 \<noteq> 0 then self\<lparr>is_initialized := True\<rparr> else self);
          self = self\<lparr>file_type := unat (drop_bit 28 (cache_address AND 0x70000000))\<rparr>
      in if \<not> cache_address = 0x00000000 then
           if file_type self = FILE_TYPE_SEPARATE then
             (let file_selector = unat (cache_address AND 0x0fffffff)
              in Inr (self\<lparr>filename := Some (''f_'' @ format_06x file_selector)\<rparr>))
           else if file_type self \<in> set BLOCK_DATA_FILE_TYPES then
             (let file_selector = unat (drop_bit 16 (cache_address AND 0x00ff0000));
                  self = self\<lparr>filename := Some (''data_'' @ format_d file_selector)\<rparr>
              in case tuple_index FILE_TYPE_BLOCK_SIZES (file_type self) of
                   Inl e \<Rightarrow> Inl e
                 | Inr file_block_size \<Rightarrow>
                     (let number = unat (cache_address AND 0x0000ffff);
                          self = self\<lparr>block_number := Some number\<rparr>;
                          multiplier = unat (drop_bit 24 (cache_address AND 0x03000000));
                          self = self\<lparr>block_size := Some (multiplier * file_block_size)\<rparr>
                      in Inr (self\<lparr>block_offset := Some (8192 + number * file_block_size)\<rparr>)))
           else Inr self
         else Inr self)"

text \<open>The kind of an address, as the specification says it: the value of bits 28 to 30.\<close>

definition address_kind :: "32 word \<Rightarrow> nat" where
  "address_kind v = (unat v div 2 ^ 28) mod 8"

subsection \<open>Files as byte strings\<close>

text \<open>Little-endian unsigned integers of any width.\<close>

definition le_word :: "byte list \<Rightarrow> 'a::len word" where
  "le_word bs = foldr (\<lambda>b acc. ucast b OR push_bit 8 acc) bs 0"

text \<open>
  Modelled from the spec: \<open>BinaryDataFile._ReadStructure\<close> of \<open>dtformats/data_format.py\<close>,
  which is not part of the sources at hand. The specification describes it as: read N
  bytes at an offset into a typed record, fail with a decode error on short reads. The
  model returns the N bytes; the callers pick the members by their offsets in the
  structure definition. An offset that is \<open>None\<close> cannot be sought to.
\<close>

definition ReadStructure :: "byte list \<Rightarrow> nat option \<Rightarrow> nat \<Rightarrow> error + byte list" where
  "ReadStructure file_object file_offset data_size =
     (case file_offset of
        None \<Rightarrow> Inl TypeError
      | Some offset \<Rightarrow>
          if offset + data_size \<le> length file_object
          then Inr (take data_size (drop offset file_object))
          else Inl (ParseError UnableToReadStructure))"

definition member :: "byte list \<Rightarrow> nat \<Rightarrow> nat \<Rightarrow> byte list" where
  "member structure offset data_size = take data_size (drop offset structure)"

text \<open>\<open>u'{0:d}.{1:d}'.format(major_version, minor_version)\<close>\<close>

definition format_version_string :: "16 word \<Rightarrow> 16 word \<Rightarrow> string" where
  "format_version_string major_version minor_version =
     format_d (unat major_version) @ ''.'' @ format_d (unat minor_version)"

subsection \<open>Log records\<close>

datatype level = ERROR | WARNING

datatype message =
    MissingDataBlockFile string
  | MaximumChainLengthReached
  | CacheAddressMissingFilename "32 word"
  | UnableToDecodeKeyAtBlockOffset "nat option"
  | UnableToDecodeKeyAtCacheAddress "32 word"

type_synonym log_record = "level \<times> message"

subsection \<open>DataBlockFile\<close>

record CacheEntry =
  creation_time :: "64 word"
  hash :: "32 word"
  key :: unicode
  next_address :: CacheAddress
  rankings_node :: CacheAddress

record DataBlockFile =
  block_size_of :: "32 word"
  format_version :: string
  number_of_entries :: "32 word"
  file_object :: "byte list"

definition DataBlockFile_FILE_HEADER_SIZE :: nat where
  "DataBlockFile_FILE_HEADER_SIZE = 4 + 2 + 2 + 2 + 2 + 4 + 4 + 4 + 4 * 4 + 4 * 4 + 4 + 5 * 4 + 2028 * 4"

definition CACHE_ENTRY_SIZE :: nat where
  "CACHE_ENTRY_SIZE = 4 + 4 + 4 + 4 + 4 + 4 + 8 + 4 + 4 + 4 * 4 + 4 * 4 + 4 + 16 + 4 + 160"

definition DataBlockFile_SIGNATURE :: "32 word" where
  "DataBlockFile_SIGNATURE = 0xc104cac3"

text \<open>
  \<open>DataBlockFile._ReadFileHeader\<close> and \<open>ReadFileObject\<close>, which keeps the file object.
  The file is read from its start. Of the header only the members the code uses are
  decoded: signature (offset 0), minor and major version (4, 6), block size (12) and
  number of entries (16).
\<close>

definition DataBlockFile_ReadFileHeader :: "byte list \<Rightarrow> error + DataBlockFile" where
  "DataBlockFile_ReadFileHeader file =
     (case ReadStructure file (Some 0) DataBlockFile_FILE_HEADER_SIZE of
        Inl e \<Rightarrow> Inl e
      | Inr file_header \<Rightarrow>
          (let signature = (le_word (member file_header 0 4) :: 32 word);
               minor_version = (le_word (member file_header 4 2) :: 16 word);
               major_version = (le_word (member file_header 6 2) :: 16 word)
           in if signature \<noteq> DataBlockFile_SIGNATURE
              then Inl (ParseError (UnsupportedSignature signature))
              else
                (let version = format_version_string major_version minor_version
                 in if version \<notin> {''2.0'', ''2.1''}
                    then Inl (ParseError (UnsupportedVersion version))
                    else Inr \<lparr>block_size_of = le_word (member file_header 12 4),
                              format_version = version,
                              number_of_entries = le_word (member file_header 16 4),
                              file_object = file\<rparr>)))"

definition DataBlockFile_ReadFileObject :: "byte list \<Rightarrow> error + DataBlockFile" where
  "DataBlockFile_ReadFileObject file = DataBlockFile_ReadFileHeader file"

text \<open>
  The key of a cache entry: \<open>bytes.partition(b'\x00')\<close> keeps what precedes the first NUL;
  \<open>decode('ascii')\<close> raises \<open>UnicodeDecodeError\<close> on a byte above 0x7f, and with
  \<open>errors='replace'\<close> puts U+FFFD in the place of each such byte.
\<close>

definition partition_nul :: "byte list \<Rightarrow> byte list" where
  "partition_nul byte_string = takeWhile (\<lambda>b. b \<noteq> 0) byte_string"

definition decode_ascii :: "byte list \<Rightarrow> unicode option" where
  "decode_ascii bs = (if \<forall>b \<in> set bs. b < 0x80 then Some (map unat bs) else None)"

definition decode_ascii_replace :: "byte list \<Rightarrow> unicode" where
  "decode_ascii_replace bs = map (\<lambda>b. if b < 0x80 then unat b else 0xfffd) bs"

text \<open>
  \<open>DataBlockFile.ReadCacheEntry\<close>: the log records written and the entry or the exception.
  Members of the entry structure: hash (offset 0), next address (4), rankings node
  address (8), creation time (24, eight bytes), key (96, 160 bytes).
\<close>

definition ReadCacheEntry ::
  "DataBlockFile \<Rightarrow> nat option \<Rightarrow> log_record list \<times> (error + CacheEntry)" where
  "ReadCacheEntry self offset =
     (case ReadStructure (file_object self) offset CACHE_ENTRY_SIZE of
        Inl e \<Rightarrow> ([], Inl e)
      | Inr cache_entry \<Rightarrow>
          (let byte_string = member cache_entry 96 160;
               cache_entry_key = partition_nul byte_string;
               (logged, cache_entry_key) =
                  (case decode_ascii cache_entry_key of
                     Some decoded \<Rightarrow> ([], decoded)
                   | None \<Rightarrow> ([(WARNING, UnableToDecodeKeyAtBlockOffset offset)],
                               decode_ascii_replace cache_entry_key))
           in case CacheAddress_init (le_word (member cache_entry 4 4)) of
                Inl e \<Rightarrow> (logged, Inl e)
              | Inr next_cache_address \<Rightarrow>
                  (case CacheAddress_init (le_word (member cache_entry 8 4)) of
                     Inl e \<Rightarrow> (logged, Inl e)
                   | Inr rankings_cache_address \<Rightarrow>
                       (logged, Inr \<lparr>creation_time = le_word (member cache_entry 24 8),
                                     hash = le_word (member cache_entry 0 4),
                                     key = cache_entry_key,
                                     next_address = next_cache_address,
                                     rankings_node = rankings_cache_address\<rparr>))))"

subsection \<open>IndexFile\<close>

record IndexFile =
  index_creation_time :: "64 word"
  index_format_version :: string
  index_table :: "(nat \<times> CacheAddress) list"

definition IndexFile_FILE_HEADER_SIZE :: nat where
  "IndexFile_FILE_HEADER_SIZE = 4 + 2 + 2 + 4 + 4 + 4 + 4 + 4 + 4 + 4 + 4 + 8 + 208"

definition IndexFile_LRU_DATA_SIZE :: nat where
  "IndexFile_LRU_DATA_SIZE = 8 + 4 + 5 * 4 + 5 * 4 + 5 * 4 + 4 + 4 + 4 + 28"

definition IndexFile_SIGNATURE :: "32 word" where
  "IndexFile_SIGNATURE = 0xc103cac3"

text \<open>
  \<open>IndexFile._ReadFileHeader\<close>: the format version and the creation time (offset 40), or
  the exception.
\<close>

definition IndexFile_ReadFileHeader :: "byte list \<Rightarrow> error + string \<times> 64 word" where
  "IndexFile_ReadFileHeader file =
     (case ReadStructure file (Some 0) IndexFile_FILE_HEADER_SIZE of
        Inl e \<Rightarrow> Inl e
      | Inr file_header \<Rightarrow>
          (let signature = (le_word (member file_header 0 4) :: 32 word);
               minor_version = (le_word (member file_header 4 2) :: 16 word);
               major_version = (le_word (member file_header 6 2) :: 16 word)
           in if signature \<noteq> IndexFile_SIGNATURE
              then Inl (ParseError (UnsupportedSignature signature))
              else
                (let version = format_version_string major_version minor_version
                 in if version \<notin> {''2.0'', ''2.1''}
                    then Inl (ParseError (UnsupportedVersion version))
                    else Inr (version, le_word (member file_header 40 8)))))"

text \<open>\<open>IndexFile._ReadLRUData\<close>: the structure is read and, outside debug mode, dropped.\<close>

definition IndexFile_ReadLRUData :: "byte list \<Rightarrow> nat \<Rightarrow> error + unit" where
  "IndexFile_ReadLRUData file file_offset =
     (case ReadStructure file (Some file_offset) IndexFile_LRU_DATA_SIZE of
        Inl e \<Rightarrow> Inl e
      | Inr lru_data \<Rightarrow> Inr ())"

text \<open>
  \<open>IndexFile._ReadIndexTable\<close> on the bytes that remain in the file: \<open>read(4)\<close> gives four
  bytes while there are as many, and fewer at the end, which stops the loop. Mapping four
  bytes to a \<open>uint32\<close> cannot fail. The dictionary \<open>index_table\<close> is the list of its items
  in the order they were entered; every key is entered once.
\<close>

fun ReadIndexTable ::
  "nat \<Rightarrow> byte list \<Rightarrow> (nat \<times> CacheAddress) list \<Rightarrow> error + (nat \<times> CacheAddress) list" where
  "ReadIndexTable cache_address_index (b0 # b1 # b2 # b3 # remaining) table =
     (let cache_address_value = (le_word [b0, b1, b2, b3] :: 32 word)
      in if cache_address_value \<noteq> 0 then
           (case CacheAddress_init cache_address_value of
              Inl e \<Rightarrow> Inl e
            | Inr cache_address \<Rightarrow>
                ReadIndexTable (cache_address_index + 1) remaining
                  (table @ [(cache_address_index, cache_address)]))
         else ReadIndexTable (cache_address_index + 1) remaining table)"
| "ReadIndexTable cache_address_index cache_address_data table = Inr table"

text \<open>The word at slot \<open>i\<close> of the bytes of an index table.\<close>

definition index_word :: "byte list \<Rightarrow> nat \<Rightarrow> 32 word" where
  "index_word table_data i = le_word (take 4 (drop (4 * i) table_data))"

definition IndexFile_ReadFileObject :: "byte list \<Rightarrow> error + IndexFile" where
  "IndexFile_ReadFileObject file =
     (case IndexFile_ReadFileHeader file of
        Inl e \<Rightarrow> Inl e
      | Inr (version, created) \<Rightarrow>
          (case IndexFile_ReadLRUData file IndexFile_FILE_HEADER_SIZE of
             Inl e \<Rightarrow> Inl e
           | Inr u \<Rightarrow>
               (case ReadIndexTable 0
                       (drop (IndexFile_FILE_HEADER_SIZE + IndexFile_LRU_DATA_SIZE) file) [] of
                  Inl e \<Rightarrow> Inl e
                | Inr table \<Rightarrow>
                    Inr \<lparr>index_creation_time = created, index_format_version = version,
                         index_table = table\<rparr>)))"

subsection \<open>ChromeCacheParser.ParseDirectory\<close>

text \<open>
  A directory is a map from file names to file contents. The source is Python 2
  (\<open>xrange\<close>, \<open>ord\<close> of an indexed byte string), and the model follows Python 2 where the
  two languages differ:
  \<^item> \<open>os.path.join(path, None)\<close> raises \<open>AttributeError\<close>;
  \<open>cache_entry.key.decode(u'ascii')\<close> on the unicode key encodes it to ASCII first, which
  raises \<open>UnicodeEncodeError\<close> when the key holds a code point above 0x7f; the handler for
  \<open>UnicodeDecodeError\<close> does not catch it.
  \<^item> \<open>datetime.datetime(1601, 1, 1) + datetime.timedelta(microseconds=t)\<close> raises
  \<open>OverflowError\<close> beyond the year 9999.
  The line printed for an entry is determined by its creation time and its key, and is
  kept as that pair. Closing the files has no effect on what is observed here.
\<close>

type_synonym directory = "string \<Rightarrow> byte list option"
type_synonym printed_line = "nat \<times> unicode"

definition unicode_decode_ascii :: "unicode \<Rightarrow> error + unicode" where
  "unicode_decode_ascii u = (if \<forall>c \<in> set u. c < 0x80 then Inr u else Inl UnicodeEncodeError)"

definition date_string :: "64 word \<Rightarrow> error + nat" where
  "date_string microseconds =
     (if unat microseconds \<le> 265046774399999999 then Inr (unat microseconds)
      else Inl OverflowError)"

text \<open>The first loop: open the data block files that the index table names.\<close>

fun open_data_block_files ::
  "directory \<Rightarrow> CacheAddress list \<Rightarrow> (string \<times> DataBlockFile) list \<Rightarrow> bool \<Rightarrow> log_record list
   \<Rightarrow> log_record list \<times> (string \<times> DataBlockFile) list \<times> (error + bool)" where
  "open_data_block_files dir [] data_block_files have_all_data_block_files logged =
     (logged, data_block_files, Inr have_all_data_block_files)"
| "open_data_block_files dir (cache_address # remaining) data_block_files
       have_all_data_block_files logged =
     (case filename cache_address of
        None \<Rightarrow> (logged, data_block_files, Inl AttributeError)
      | Some name \<Rightarrow>
          if name \<notin> set (map fst data_block_files) then
            (case dir name of
               None \<Rightarrow>
                 open_data_block_files dir remaining data_block_files False
                   (logged @ [(ERROR, MissingDataBlockFile name)])
             | Some file \<Rightarrow>
                 (case DataBlockFile_ReadFileObject file of
                    Inl e \<Rightarrow> (logged, data_block_files, Inl e)
                  | Inr data_block_file \<Rightarrow>
                      open_data_block_files dir remaining
                        (data_block_files @ [(name, data_block_file)])
                        have_all_data_block_files logged))
          else
            open_data_block_files dir remaining data_block_files
              have_all_data_block_files logged)"

text \<open>\<open>data_block_files.get(cache_address.filename, None)\<close>\<close>

definition get_data_file ::
  "(string \<times> DataBlockFile) list \<Rightarrow> string option \<Rightarrow> DataBlockFile option" where
  "get_data_file data_block_files name =
     (case name of None \<Rightarrow> None | Some n \<Rightarrow> map_of data_block_files n)"

text \<open>
  The \<open>while cache_address.value != 0x00000000\<close> loop for one slot of the index table:
  the exception that ended it, if any, the lines printed and the log records.
\<close>

function chain_loop ::
  "(string \<times> DataBlockFile) list \<Rightarrow> CacheAddress \<Rightarrow> nat \<Rightarrow> printed_line list \<Rightarrow> log_record list
   \<Rightarrow> error option \<times> printed_line list \<times> log_record list" where
  "chain_loop data_block_files cache_address cache_address_chain_length out logged =
     (if addr_value cache_address \<noteq> 0x00000000 then
        if cache_address_chain_length \<ge> 64 then
          (None, out, logged @ [(ERROR, MaximumChainLengthReached)])
        else
          (case get_data_file data_block_files (filename cache_address) of
             None \<Rightarrow>
               (None, out,
                logged @ [(WARNING, CacheAddressMissingFilename (addr_value cache_address))])
           | Some data_file \<Rightarrow>
               (case ReadCacheEntry data_file (block_offset cache_address) of
                  (entry_log, Inl e) \<Rightarrow> (Some e, out, logged @ entry_log)
                | (entry_log, Inr cache_entry) \<Rightarrow>
                    (case unicode_decode_ascii (key cache_entry) of
                       Inl e \<Rightarrow> (Some e, out, logged @ entry_log)
                     | Inr cache_entry_key \<Rightarrow>
                         (case date_string (creation_time cache_entry) of
                            Inl e \<Rightarrow> (Some e, out, logged @ entry_log)
                          | Inr date \<Rightarrow>
                              chain_loop data_block_files (next_address cache_entry)
                                (cache_address_chain_length + 1)
                                (out @ [(date, key cache_entry)])
                                (logged @ entry_log)))))
      else (None, out, logged))"
  by pat_completeness auto
termination
  by (relation "measure (\<lambda>(fs, a, n, out, logged). 64 - n)") auto

declare chain_loop.simps [simp del]

text \<open>The second loop: one chain for each value of the index table.\<close>

fun chains ::
  "(string \<times> DataBlockFile) list \<Rightarrow> CacheAddress list \<Rightarrow> printed_line list \<Rightarrow> log_record list
   \<Rightarrow> error option \<times> printed_line list \<times> log_record list" where
  "chains data_block_files [] out logged = (None, out, logged)"
| "chains data_block_files (cache_address # remaining) out logged =
     (case chain_loop data_block_files cache_address 0 out logged of
        (Some e, out', logged') \<Rightarrow> (Some e, out', logged')
      | (None, out', logged') \<Rightarrow> chains data_block_files remaining out' logged')"

record parse_result =
  raised :: "error option"
  printed :: "printed_line list"
  log_records :: "log_record list"
  opened :: "string list"

definition ParseDirectory :: "directory \<Rightarrow> parse_result" where
  "ParseDirectory dir =
     (case dir ''index'' of
        None \<Rightarrow>
          \<lparr>raised = Some (ParseError MissingIndexFile), printed = [], log_records = [],
           opened = []\<rparr>
      | Some index_data \<Rightarrow>
          (case IndexFile_ReadFileObject index_data of
             Inl e \<Rightarrow> \<lparr>raised = Some e, printed = [], log_records = [], opened = []\<rparr>
           | Inr index_file \<Rightarrow>
               (case open_data_block_files dir (map snd (index_table index_file)) [] True [] of
                  (logged, data_block_files, Inl e) \<Rightarrow>
                    \<lparr>raised = Some e, printed = [], log_records = logged,
                     opened = map fst data_block_files\<rparr>
                | (logged, data_block_files, Inr have_all_data_block_files) \<Rightarrow>
                    (case (if have_all_data_block_files
                           then chains data_block_files (map snd (index_table index_file))
                                  [] logged
                           else (None, [], logged)) of
                       (Some e, out, logged') \<Rightarrow>
                         \<lparr>raised = Some e, printed = out, log_records = logged',
                          opened = map fst data_block_files\<rparr>
                     | (None, out, logged') \<Rightarrow>
                         \<lparr>raised = (if \<not> have_all_data_block_files
                                    then Some (ParseError MissingDataBlockFiles) else None),
                          printed = out, log_records = logged',
                          opened = map fst data_block_files\<rparr>))))"

subsection \<open>Members of the structures by their place in the file, and example files\<close>

text \<open>
  The signature and the version members of a file header (little-endian: \<open>uint32\<close>
  signature, \<open>uint16\<close> minor version, \<open>uint16\<close> major version), and the 160 bytes of the
  key buffer of the cache entry at an offset.
\<close>

definition header_signature :: "byte list \<Rightarrow> 32 word" where
  "header_signature file = le_word (take 4 file)"

definition header_minor_version :: "byte list \<Rightarrow> 16 word" where
  "header_minor_version file = le_word (take 2 (drop 4 file))"

definition header_major_version :: "byte list \<Rightarrow> 16 word" where
  "header_major_version file = le_word (take 2 (drop 6 file))"


text \<open>
  Files to run the parser on: an index file with a version 2.0 header, an empty LRU
  block and the given table; a data block file with a version 2.0 header and the given
  entries, the first at offset 8192; an entry with a next address and a key, all other
  members zero.
\<close>

definition le_bytes :: "32 word \<Rightarrow> byte list" where
  "le_bytes w = map (\<lambda>i. ucast (drop_bit (8 * i) w)) [0, 1, 2, 3]"

definition example_index :: "32 word list \<Rightarrow> byte list" where
  "example_index table =
     le_bytes IndexFile_SIGNATURE @ [0, 0, 2, 0] @ replicate 248 0 @ replicate 112 0 @
     concat (map le_bytes table)"

definition example_entry :: "32 word \<Rightarrow> byte list \<Rightarrow> byte list" where
  "example_entry next_value key_bytes =
     replicate 4 0 @ le_bytes next_value @ replicate 88 0 @ key_bytes @
     replicate (160 - length key_bytes) 0"

definition example_data_file :: "byte list list \<Rightarrow> byte list" where
  "example_data_file entries =
     le_bytes DataBlockFile_SIGNATURE @ [0, 0, 2, 0] @ replicate 8184 0 @ concat entries"

text \<open>One slot whose entry in \<open>data_1\<close> names itself as the next entry.\<close>

definition directory_self_loop :: directory where
  "directory_self_loop =
     map_of [(''index'', example_index [0xA0010000]),
             (''data_1'', example_data_file [example_entry 0xA0010000 [0x61]])]"


text \<open>
  One slot, in \<open>data_1\<close>, whose entry continues in \<open>data_2\<close>: a file that is there, and
  that no slot of the table names.
\<close>

definition directory_unreferenced_file :: directory where
  "directory_unreferenced_file =
     map_of [(''index'', example_index [0xA0010000]),
             (''data_1'', example_data_file [example_entry 0xA0020000 [0x61]]),
             (''data_2'', example_data_file [example_entry 0 [0x62]])]"

section \<open>Verification\<close>

subsection \<open>The hash on Python integers and on 32-bit words\<close>

lemma mask32: "(x::int) AND 0xffffffff = take_bit 32 x"
  by (simp add: take_bit_eq_mask mask_eq_exp_minus_1)

lemma uint_add32: "take_bit 32 (uint (a::32 word) + uint b) = uint (a + b)"
  by (simp add: uint_word_ariths take_bit_eq_mod)

lemma uint_push32: "take_bit 32 (push_bit n (uint (a::32 word))) = uint (push_bit n a)"
  by (simp add: unsigned_push_bit_eq)

lemma uint_drop32: "drop_bit n (uint (a::32 word)) = uint (drop_bit n a)"
  by (simp add: unsigned_drop_bit_eq bintr_uint)

lemma uint_xor32: "uint (a::32 word) XOR uint b = uint (a XOR b)"
  by (simp add: unsigned_xor_eq)

lemma ord_ucast: "ord b = uint (ucast b :: 32 word)"
  by (simp add: ord_def unsigned_ucast_eq bintr_uint) 

lemma ord_bound: "0 \<le> ord b \<and> ord b < 256"
  using uint_bounded [of b] by (simp add: ord_def)

lemma le16_uint: "ord b0 + push_bit 8 (ord b1) = uint (le16 b0 b1)"
proof -
  have "ord b0 + push_bit 8 (ord b1) < 2 ^ 32" "0 \<le> ord b0 + push_bit 8 (ord b1)"
    using ord_bound [of b0] ord_bound [of b1] by (simp_all add: push_bit_eq_mult)
  then have "take_bit 32 (ord b0 + push_bit 8 (ord b1)) = ord b0 + push_bit 8 (ord b1)"
    by (simp add: take_bit_int_eq_self)
  moreover have "uint (le16 b0 b1) = take_bit 32 (ord b0 + push_bit 8 (ord b1))"
    unfolding le16_def uint_add32 [symmetric] uint_push32 [symmetric] ord_ucast [symmetric]
    by (simp add: take_bit_eq_mod mod_simps)
  ultimately show ?thesis by simp
qed

lemma hash_group_uint:
  "hash_group (uint h) (ord b0) (ord b1) (ord b2) (ord b3) = uint (spec_fold_group h b0 b1 b2 b3)"
proof -
  have a: "uint h + ord b0 + push_bit 8 (ord b1) = uint h + uint (le16 b0 b1)"
    using le16_uint [of b0 b1] by simp
  show ?thesis
    unfolding hash_group_def spec_fold_group_def Let_def mask32 a le16_uint
      uint_add32 uint_push32 uint_drop32 uint_xor32 ..
qed

lemma hash_remainder3_uint:
  "hash_remainder3 (uint h) (ord b0) (ord b1) (ord b2) = uint (spec_tail h [b0, b1, b2])"
proof -
  have a: "uint h + ord b0 + push_bit 8 (ord b1) = uint h + uint (le16 b0 b1)"
    using le16_uint [of b0 b1] by simp
  show ?thesis
    unfolding hash_remainder3_def spec_tail.simps Let_def mask32 a
    unfolding ord_ucast uint_add32 uint_push32 uint_drop32 uint_xor32 ..
qed

lemma hash_remainder2_uint:
  "hash_remainder2 (uint h) (ord b0) (ord b1) = uint (spec_tail h [b0, b1])"
proof -
  have a: "uint h + ord b0 + push_bit 8 (ord b1) = uint h + uint (le16 b0 b1)"
    using le16_uint [of b0 b1] by simp
  show ?thesis
    unfolding hash_remainder2_def spec_tail.simps Let_def mask32 a
      uint_add32 uint_push32 uint_drop32 uint_xor32 ..
qed

lemma hash_remainder1_uint:
  "hash_remainder1 (uint h) (ord b0) = uint (spec_tail h [b0])"
  unfolding hash_remainder1_def spec_tail.simps Let_def mask32 ord_ucast
      uint_add32 uint_push32 uint_drop32 uint_xor32 ..

lemma hash_avalanche_uint:
  "hash_avalanche (uint h) = uint (spec_avalanche h)"
  unfolding hash_avalanche_def spec_avalanche_def Let_def mask32
      uint_add32 uint_push32 uint_drop32 uint_xor32 ..


lemma key_at_append: "key_at (pre @ b # bs) (length pre) = Inr (ord b)"
  by (simp add: key_at_def)

lemma key_at_append1: "key_at (pre @ b0 # b # bs) (Suc (length pre)) = Inr (ord b)"
  by (simp add: key_at_def nth_append)

lemma key_at_append2: "key_at (pre @ b0 # b1 # b # bs) (Suc (Suc (length pre))) = Inr (ord b)"
  by (simp add: key_at_def nth_append)

lemma key_at_append3: "key_at (pre @ b0 # b1 # b2 # b # bs) (length pre + 3) = Inr (ord b)"
  by (simp add: key_at_def nth_append numeral_3_eq_3)

lemmas key_at_appends = key_at_append key_at_append1 key_at_append2 key_at_append3

lemma hash_rest_short:
  assumes "length pre mod 4 = 0" "length rest < 4"
  shows "hash_rest (pre @ rest) (length pre) hv =
         hash_remainder (pre @ rest) (length pre) (length rest) hv"
proof -
  have "length (pre @ rest) = length pre + length rest" by simp
  with assms have "length (pre @ rest) mod 4 = length rest"
      "length (pre @ rest) - length (pre @ rest) mod 4 = length pre"
    by presburger+
  then show ?thesis
    unfolding hash_rest_def by (subst hash_loop.simps) simp
qed

lemma hash_rest_tail:
  assumes "length pre mod 4 = 0" "length rest < 4"
  shows "hash_rest (pre @ rest) (length pre) (uint h) = Inr (uint (spec_tail h rest))"
proof (cases "rest = []")
  case True
  then show ?thesis
    using hash_rest_short [OF assms, of "uint h"] by (simp add: hash_remainder_def)
next
  case False
  then show ?thesis
    using hash_rest_short [OF assms, of "uint h"] assms(2)
    by (cases "(h, rest)" rule: spec_tail.cases)
       (simp_all add: hash_remainder_def key_at_appends hash_remainder1_uint
          hash_remainder2_uint hash_remainder3_uint del: spec_tail.simps)
qed

lemma hash_rest_tail_Nil:
  "length pre mod 4 = 0 \<Longrightarrow>
   hash_rest pre (length pre) (uint h) = Inr (uint (spec_tail (h :: 32 word) []))"
  using hash_rest_tail [of pre "[]" h] by simp

lemma hash_rest_groups:
  "length pre mod 4 = 0 \<Longrightarrow> hash_rest (pre @ rest) (length pre) (uint h) = Inr (uint (spec_groups h rest))"
proof (induction h rest arbitrary: pre rule: spec_groups.induct)
  case (1 h b0 b1 b2 b3 bs)
  let ?ky = "pre @ b0 # b1 # b2 # b3 # bs"
  let ?pre = "pre @ [b0, b1, b2, b3]"
  have lt: "length pre < length ?ky - length ?ky mod 4"
  proof -
    have "length ?ky = length pre + (length bs + 4)" by simp
    with "1.prems" show ?thesis by presburger
  qed
  have lp: "length ?pre = length pre + 4" by simp
  with "1.prems" have al: "length ?pre mod 4 = 0" by presburger
  have k: "?pre @ bs = ?ky" by simp
  have "hash_rest ?ky (length pre) (uint h) =
        hash_rest ?ky (length pre + 4) (uint (spec_fold_group h b0 b1 b2 b3))"
    unfolding hash_rest_def
    by (subst hash_loop.simps) (simp add: lt key_at_appends hash_group_uint del: length_append)
  also have "\<dots> = hash_rest (?pre @ bs) (length ?pre) (uint (spec_fold_group h b0 b1 b2 b3))"
    unfolding lp k ..
  also have "\<dots> = Inr (uint (spec_groups (spec_fold_group h b0 b1 b2 b3) bs))"
    by (rule "1.IH" [OF al])
  finally show ?case by simp
qed (simp_all add: hash_rest_tail hash_rest_tail_Nil del: spec_tail.simps)

text \<open>
  Claim C3. \<open>SuperFastHash\<close> never raises and returns the value of the hash as the
  specification words it on unsigned 32-bit words: 0 for the empty key; otherwise the
  length modulo \<open>2^32\<close> as the initial value, one fold for each full group of four bytes
  read little-endian, the tail step for 3, 2 or 1 trailing bytes (shifts 16, 18, 11; 11,
  17; 10, 1), and the avalanche with the shifts 3, 5, 4, 17, 25, 6.
\<close>

theorem SuperFastHash_refines: "SuperFastHash k = Inr (uint (spec_hash k))"
proof (cases "k = []")
  case True
  then show ?thesis by (simp add: SuperFastHash_def spec_hash_def)
next
  case False
  let ?n = "length k - length k mod 4"
  let ?h = "of_nat (length k) :: 32 word"
  have len: "int (length k) AND 0xffffffff = uint ?h"
    by (simp add: mask32 unsigned_of_nat take_bit_of_nat)
  have "hash_rest ([] @ k) (length ([] :: byte list)) (uint ?h) = Inr (uint (spec_groups ?h k))"
    by (rule hash_rest_groups) simp
  then obtain x where x: "hash_loop k 0 ?n (uint ?h) = Inr x"
      "hash_remainder k ?n (length k mod 4) x = Inr (uint (spec_groups ?h k))"
    by (auto simp: hash_rest_def split: sum.splits)
  show ?thesis
    using False by (simp add: SuperFastHash_def spec_hash_def Let_def len x hash_avalanche_uint)
qed

subsection \<open>Cache addresses\<close>

lemma and_low: "(x::32 word) AND (2 ^ n - 1) = take_bit n x"
  by (simp add: take_bit_eq_mask mask_eq_exp_minus_1)

lemma unat_field:
  "unat (take_bit k (drop_bit n (v::32 word))) = (unat v div 2 ^ n) mod 2 ^ k"
proof -
  have "unat (take_bit k (drop_bit n v)) = take_bit k (drop_bit n (unat v))"
    by (simp only: unsigned_take_bit_eq unat_drop_bit_eq)
  then show ?thesis
    by (simp only: take_bit_eq_mod drop_bit_eq_div)
qed

lemma field_and:
  "n + k \<le> 32 \<Longrightarrow> drop_bit n ((v::32 word) AND push_bit n (mask k)) = take_bit k (drop_bit n v)"
  by (rule bit_word_eqI) (auto simp: bit_simps)

lemma bits_kind: "unat (drop_bit 28 ((v::32 word) AND 0x70000000)) = (unat v div 2 ^ 28) mod 8"
  using field_and [of 28 3 v] unat_field [of 3 28 v] by (simp add: mask_eq_exp_minus_1)

lemma bits_selector: "unat (drop_bit 16 ((v::32 word) AND 0x00ff0000)) = (unat v div 2 ^ 16) mod 256"
  using field_and [of 16 8 v] unat_field [of 8 16 v] by (simp add: mask_eq_exp_minus_1)

lemma bits_size: "unat (drop_bit 24 ((v::32 word) AND 0x03000000)) = (unat v div 2 ^ 24) mod 4"
  using field_and [of 24 2 v] unat_field [of 2 24 v] by (simp add: mask_eq_exp_minus_1)

lemma bits_number: "unat ((v::32 word) AND 0x0000ffff) = unat v mod 2 ^ 16"
  using and_low [of v 16] unat_field [of 16 0 v] by simp

lemma bits_separate: "unat ((v::32 word) AND 0x0fffffff) = unat v mod 2 ^ 28"
  using and_low [of v 28] unat_field [of 28 0 v] by simp

lemma bits_initialized: "((v::32 word) AND 0x80000000 \<noteq> 0) = (2 ^ 31 \<le> unat v)"
proof -
  have "(v AND 0x80000000 \<noteq> 0) = bit v 31"
    using and_exp_eq_0_iff_not_bit [of v 31] by simp
  also have "\<dots> = bit (unat v) 31"
    by (simp add: bit_unsigned_iff)
  also have "\<dots> = odd (unat v div 2 ^ 31)"
    by (simp only: bit_iff_odd)
  also have "\<dots> = (2 ^ 31 \<le> unat v)"
  proof -
    have "unat v < 2 ^ 32" using unsigned_less [of v, where ?'a = nat] by simp
    then have "unat v div 2 ^ 31 < 2" by (simp add: less_mult_imp_div_less)
    then have "odd (unat v div 2 ^ 31) = (unat v div 2 ^ 31 = 1)"
      by (cases "unat v div 2 ^ 31 = 0") auto
    also have "\<dots> = (2 ^ 31 \<le> unat v)"
      using \<open>unat v < 2 ^ 32\<close> by (simp add: div_eq_dividend_iff) arith
    finally show ?thesis .
  qed
  finally show ?thesis .
qed


lemmas address_bits = bits_kind bits_selector bits_size bits_number bits_separate bits_initialized

lemmas file_type_defs = FILE_TYPE_SEPARATE_def FILE_TYPE_BLOCK_RANKINGS_def FILE_TYPE_BLOCK_256_def
  FILE_TYPE_BLOCK_1024_def FILE_TYPE_BLOCK_4096_def BLOCK_DATA_FILE_TYPES_def
  FILE_TYPE_BLOCK_SIZES_def tuple_index_def

lemma CacheAddress_init_zero:
  "CacheAddress_init 0 =
     Inr \<lparr>block_number = None, block_offset = None, block_size = None, filename = None,
          is_initialized = False, addr_value = 0, file_type = 0\<rparr>"
  by (simp add: CacheAddress_init_def)

lemma kind_nonzero: "address_kind v \<noteq> 0 \<Longrightarrow> v \<noteq> 0"
  by (auto simp: address_kind_def)

lemma CacheAddress_init_block:
  assumes "address_kind v \<in> {1, 2, 3, 4}"
  shows "CacheAddress_init v =
     Inr \<lparr>block_number = Some (unat v mod 2 ^ 16),
          block_offset = Some (8192 + (unat v mod 2 ^ 16) * (FILE_TYPE_BLOCK_SIZES ! address_kind v)),
          block_size = Some ((unat v div 2 ^ 24) mod 4 * (FILE_TYPE_BLOCK_SIZES ! address_kind v)),
          filename = Some (''data_'' @ format_d ((unat v div 2 ^ 16) mod 256)),
          is_initialized = (2 ^ 31 \<le> unat v), addr_value = v,
          file_type = address_kind v\<rparr>"
proof -
  from assms have "v \<noteq> 0" using kind_nonzero [of v] by auto
  with assms show ?thesis
    unfolding CacheAddress_init_def Let_def address_bits
    by (auto simp: file_type_defs address_kind_def)
qed

lemma CacheAddress_init_unknown:
  assumes "address_kind v \<in> {5, 6, 7}"
  shows "CacheAddress_init v =
     Inr \<lparr>block_number = None, block_offset = None, block_size = None, filename = None,
          is_initialized = (2 ^ 31 \<le> unat v), addr_value = v, file_type = address_kind v\<rparr>"
proof -
  from assms have "v \<noteq> 0" using kind_nonzero [of v] by auto
  with assms show ?thesis
    unfolding CacheAddress_init_def Let_def address_bits
    by (auto simp: file_type_defs address_kind_def)
qed

lemma CacheAddress_init_separate:
  assumes "address_kind v = 0" "v \<noteq> 0"
  shows "CacheAddress_init v =
     Inr \<lparr>block_number = None, block_offset = None, block_size = None,
          filename = Some (''f_'' @ format_06x (unat v mod 2 ^ 28)),
          is_initialized = (2 ^ 31 \<le> unat v), addr_value = v, file_type = 0\<rparr>"
  using assms unfolding CacheAddress_init_def Let_def address_bits
  by (auto simp: file_type_defs address_kind_def)

lemma address_kind_cases:
  obtains "v = 0" | "v \<noteq> 0" "address_kind v = 0" | "address_kind v \<in> {1, 2, 3, 4}"
  | "address_kind v \<in> {5, 6, 7}"
proof -
  have "address_kind v < 8" by (simp add: address_kind_def)
  then have "address_kind v = 0 \<or> address_kind v \<in> {1, 2, 3, 4} \<or> address_kind v \<in> {5, 6, 7}"
    by (simp only: insert_iff empty_iff) arith
  then show ?thesis using that by blast
qed

lemma CacheAddress_init_total: "\<exists>a. CacheAddress_init v = Inr a"
proof (cases v rule: address_kind_cases)
  case 1
  then show ?thesis by (simp only: CacheAddress_init_zero) blast
next
  case 2
  then show ?thesis using CacheAddress_init_separate [of v] by blast
next
  case 3
  then show ?thesis using CacheAddress_init_block [of v] by blast
next
  case 4
  then show ?thesis using CacheAddress_init_unknown [of v] by blast
qed

lemma CacheAddress_init_value:
  assumes "CacheAddress_init v = Inr a"
  shows "addr_value a = v"
proof (cases v rule: address_kind_cases)
  case 1
  with assms show ?thesis by (auto simp add: CacheAddress_init_zero)
next
  case 2
  with assms show ?thesis by (auto simp add: CacheAddress_init_separate)
next
  case 3
  with assms show ?thesis by (simp only: CacheAddress_init_block) auto
next
  case 4
  with assms show ?thesis by (simp only: CacheAddress_init_unknown) auto
qed

text \<open>
  Claim C4. Decoding a cache address succeeds for every 32-bit value: the constructor
  never raises. For a value whose kind bits (bits 28 to 30) hold 5, 6 or 7 no filename,
  block number, block size or block offset is derived.
\<close>

theorem CacheAddress_decoding_total:
  "(\<exists>a. CacheAddress_init v = Inr a) \<and>
   (address_kind v \<in> {5, 6, 7} \<longrightarrow>
      (\<exists>a. CacheAddress_init v = Inr a \<and> filename a = None \<and> block_number a = None \<and>
           block_size a = None \<and> block_offset a = None))"
  using CacheAddress_init_total [of v] CacheAddress_init_unknown [of v] by auto

theorem CacheAddress_decoding_total_witness:
  "address_kind 0x50000000 \<in> {5, 6, 7} \<and>
   (\<exists>a. CacheAddress_init 0x50000000 = Inr a \<and> filename a = None \<and> block_number a = None \<and>
        block_size a = None \<and> block_offset a = None)"
proof -
  have k: "address_kind 0x50000000 \<in> {5, 6, 7}" by (simp add: address_kind_def)
  with CacheAddress_decoding_total [of "0x50000000"] show ?thesis by blast
qed

text \<open>
  Claim C5. For a value whose kind bits select a block kind (1 to 4), decoding gives the
  filename \<open>data_\<close> followed by the decimal value of bits 16 to 23, the low 16 bits as
  block number, bits 24 and 25 times the base unit of the kind as block size, and 8192
  plus block number times the base unit as block offset; the base unit is 36, 256, 1024
  or 4096. The witness is the Block256 address with selector 2 and block number 5:
  \<open>data_2\<close> and offset 9472.
\<close>

theorem CacheAddress_block_fields:
  assumes "address_kind v \<in> {1, 2, 3, 4}"
  shows "\<exists>a. CacheAddress_init v = Inr a \<and>
     filename a = Some (''data_'' @ format_d ((unat v div 2 ^ 16) mod 256)) \<and>
     block_number a = Some (unat v mod 2 ^ 16) \<and>
     block_size a = Some ((unat v div 2 ^ 24) mod 4 * ([0, 36, 256, 1024, 4096] ! address_kind v)) \<and>
     block_offset a = Some (8192 + (unat v mod 2 ^ 16) * ([0, 36, 256, 1024, 4096] ! address_kind v)) \<and>
     [0, 36, 256, 1024, 4096] ! address_kind v \<in> {36, 256, 1024, 4096 :: nat}"
  using assms CacheAddress_init_block [OF assms] by (auto simp: FILE_TYPE_BLOCK_SIZES_def)

theorem CacheAddress_block_fields_witness:
  "address_kind 0xA0020005 \<in> {1, 2, 3, 4} \<and>
   (\<exists>a. CacheAddress_init 0xA0020005 = Inr a \<and> filename a = Some ''data_2'' \<and>
        block_number a = Some 5 \<and> block_size a = Some 0 \<and> block_offset a = Some 9472)"
proof -
  have k: "address_kind 0xA0020005 = 2" by (simp add: address_kind_def)
  then have h: "address_kind 0xA0020005 \<in> {1, 2, 3, 4}" by simp
  have d: "format_d 2 = ''2''" by (simp add: format_d.simps digit_char_def)
  from CacheAddress_block_fields [OF h] show ?thesis
    using h by (simp add: k d)
qed

text \<open>
  Claim C6. Decoding is a function of the 32-bit value: equal values decode to equal
  results. The value 0 decodes to the sentinel: not initialised, and no filename, block
  number, block size or block offset.
\<close>

theorem CacheAddress_deterministic_sentinel:
  "(v = w \<longrightarrow> CacheAddress_init v = CacheAddress_init w) \<and>
   CacheAddress_init 0x00000000 =
     Inr \<lparr>block_number = None, block_offset = None, block_size = None, filename = None,
          is_initialized = False, addr_value = 0, file_type = 0\<rparr>"
  using CacheAddress_init_zero by simp

theorem CacheAddress_deterministic_sentinel_witness:
  "(0xA0020005 :: 32 word) = 0xA0020005 \<and> CacheAddress_init 0xA0020005 = CacheAddress_init 0xA0020005 \<and>
   is_initialized (projr (CacheAddress_init 0)) = False \<and> filename (projr (CacheAddress_init 0)) = None"
  using CacheAddress_deterministic_sentinel [of "0xA0020005" "0xA0020005"] by simp

subsection \<open>The index table\<close>

lemma index_word_0: "index_word (b0 # b1 # b2 # b3 # bs) 0 = le_word [b0, b1, b2, b3]"
  by (simp add: index_word_def)

lemma index_word_Suc: "index_word (b0 # b1 # b2 # b3 # bs) (Suc i) = index_word bs i"
proof -
  have "drop (4 * Suc i) (b0 # b1 # b2 # b3 # bs) = drop (4 * i) (drop 4 (b0 # b1 # b2 # b3 # bs))"
    by (simp only: drop_drop mult_Suc_right add.commute)
  then show ?thesis by (simp add: index_word_def)
qed

lemma upt_div4: "[0..<(4 + n) div 4] = 0 # map Suc [0..<n div 4]"
proof -
  have "(4 + n) div 4 = Suc (n div 4)" by simp
  then show ?thesis by (simp only: upt_conv_Cons [of 0] map_Suc_upt)
qed

lemma ReadIndexTable_general:
  "ReadIndexTable n bs acc =
     Inr (acc @ map (\<lambda>i. (n + i, projr (CacheAddress_init (index_word bs i))))
                   (filter (\<lambda>i. index_word bs i \<noteq> 0) [0..<length bs div 4]))"
proof (induction n bs acc rule: ReadIndexTable.induct)
  case (1 n b0 b1 b2 b3 bs acc)
  let ?w = "le_word [b0, b1, b2, b3] :: 32 word"
  obtain a where a: "CacheAddress_init ?w = Inr a"
    using CacheAddress_init_total [of ?w] by blast
  show ?case
    using "1.IH" a
    by (cases "?w = 0")
       (simp_all add: upt_div4 filter_map o_def index_word_0 index_word_Suc del: upt.simps)
qed simp_all

text \<open>
  Claim C7. The index table is read word by word until fewer than four bytes remain: on
  any bytes \<open>_ReadIndexTable\<close> returns without raising, a trailing partial word ends the
  table, every slot whose word is zero has no entry, and every slot whose word is not
  zero has the cache address decoded from that word as its entry, under the number of
  the slot. Decoding succeeds for every word.
\<close>

theorem ReadIndexTable_slots:
  "ReadIndexTable 0 table_data [] =
     Inr (map (\<lambda>i. (i, projr (CacheAddress_init (index_word table_data i))))
              (filter (\<lambda>i. index_word table_data i \<noteq> 0) [0..<length table_data div 4])) \<and>
   (\<forall>i. \<exists>a. CacheAddress_init (index_word table_data i) = Inr a)"
  using ReadIndexTable_general [of 0 table_data "[]"] CacheAddress_init_total by simp

theorem ReadIndexTable_slots_witness:
  "ReadIndexTable 0 [5, 0, 2, 0xA0, 0, 0, 0, 0, 1, 0, 0, 0x80, 7, 7] [] =
     Inr [(0, projr (CacheAddress_init 0xA0020005)), (2, projr (CacheAddress_init 0x80000001))]"
proof -
  let ?bs = "[5, 0, 2, 0xA0, 0, 0, 0, 0, 1, 0, 0, 0x80, 7, 7] :: byte list"
  have u: "[0..<3] = [0, 1, 2]" by code_simp
  have w: "index_word ?bs 0 = 0xA0020005" "index_word ?bs (Suc 0) = 0" "index_word ?bs 2 = 0x80000001"
    by (simp_all add: index_word_def le_word_def)
  from ReadIndexTable_slots [of ?bs] have
    "ReadIndexTable 0 ?bs [] =
       Inr (map (\<lambda>i. (i, projr (CacheAddress_init (index_word ?bs i))))
              (filter (\<lambda>i. index_word ?bs i \<noteq> 0) [0..<length ?bs div 4]))" ..
  then show ?thesis by (simp add: u w del: ReadIndexTable.simps)
qed

subsection \<open>Bytes of the example files\<close>

lemma le_bytes_length [simp]: "length (le_bytes w) = 4"
  by (simp add: le_bytes_def)

lemma le_word_le_bytes [simp]: "le_word (le_bytes w) = w"
  unfolding le_word_def le_bytes_def
  apply (rule bit_word_eqI)
  subgoal for n by (cases "8 \<le> n"; cases "16 \<le> n"; cases "24 \<le> n") (auto simp: bit_simps)
  done

lemma le_word_zeros [simp]:
  "le_word (replicate n 0) = 0"
  by (induction n) (simp_all add: le_word_def)

lemma version_2_0: "format_version_string 2 0 = ''2.0''"
  by (simp add: format_version_string_def format_d.simps digit_char_def)

lemma example_data_file_length: "length (example_data_file es) = 8192 + length (concat es)"
  by (simp add: example_data_file_def)

lemma example_data_file_header:
  "take 8192 (example_data_file es) = le_bytes DataBlockFile_SIGNATURE @ [0, 0, 2, 0] @ replicate 8184 0"
  by (simp add: example_data_file_def)

lemma example_data_file_open:
  "DataBlockFile_ReadFileObject (example_data_file es) =
     Inr \<lparr>block_size_of = 0, format_version = ''2.0'', number_of_entries = 0,
          file_object = example_data_file es\<rparr>"
proof -
  have w: "(le_word [0, 0] :: 16 word) = 0" "(le_word [2, 0] :: 16 word) = 2"
    by (simp_all add: le_word_def)
  show ?thesis
    by (simp add: DataBlockFile_ReadFileObject_def DataBlockFile_ReadFileHeader_def
        ReadStructure_def DataBlockFile_FILE_HEADER_SIZE_def example_data_file_length
        example_data_file_header member_def w version_2_0)
qed


lemma example_entry_length: "length key_bytes \<le> 160 \<Longrightarrow> length (example_entry v key_bytes) = 256"
  by (simp add: example_entry_def)

lemma example_entry_read:
  "ReadStructure (example_data_file [example_entry v [c]]) (Some 8192) CACHE_ENTRY_SIZE =
     Inr (example_entry v [c])"
proof -
  have "drop 8192 (example_data_file [example_entry v [c]]) = example_entry v [c]"
    by (simp add: example_data_file_def)
  then show ?thesis
    by (simp add: ReadStructure_def CACHE_ENTRY_SIZE_def example_data_file_length
        example_entry_length)
qed

lemma example_entry_members:
  "member (example_entry v [c]) 0 4 = replicate 4 0"
  "member (example_entry v [c]) 4 4 = le_bytes v"
  "member (example_entry v [c]) 8 4 = replicate 4 0"
  "member (example_entry v [c]) 24 8 = replicate 8 0"
  "member (example_entry v [c]) 96 160 = c # replicate 159 0"
  by (simp_all add: member_def example_entry_def)

subsection \<open>Signature and version of the file headers\<close>

lemma lt10_cases: "n < 10 \<Longrightarrow> n \<in> {0, 1, 2, 3, 4, 5, 6, 7, 8, 9 :: nat}"
  by (simp only: insert_iff empty_iff) arith

lemma digit_char_lt10:
  assumes "n < 10"
  shows "digit_char n \<in> set ''0123456789''"
    "digit_char n = CHR ''0'' \<longleftrightarrow> n = 0"
    "digit_char n = CHR ''1'' \<longleftrightarrow> n = 1"
    "digit_char n = CHR ''2'' \<longleftrightarrow> n = 2"
  using lt10_cases [OF assms] by (auto simp: digit_char_def)

lemma format_d_digits: "set (format_d n) \<subseteq> set ''0123456789''"
proof (induction n rule: format_d.induct)
  case (1 n)
  show ?case
  proof (cases "n < 10")
    case True
    then show ?thesis using digit_char_lt10(1) [of n] by (subst format_d.simps) simp
  next
    case False
    have "n mod 10 < 10" by simp
    with False "1.IH" digit_char_lt10(1) [of "n mod 10"] show ?thesis
      by (subst format_d.simps) simp
  qed
qed

lemma format_d_no_dot: "CHR ''.'' \<notin> set (format_d n)"
  using format_d_digits [of n] by auto

lemma format_d_length: "10 \<le> n \<Longrightarrow> 2 \<le> length (format_d n)"
proof -
  assume "10 \<le> n"
  then have "format_d n = format_d (n div 10) @ [digit_char (n mod 10)]"
    by (subst format_d.simps) simp
  moreover have "format_d (n div 10) \<noteq> []"
    by (subst format_d.simps) simp
  ultimately show ?thesis by (cases "format_d (n div 10)") simp_all
qed

lemma format_d_char: "format_d n = [c] \<longleftrightarrow> n < 10 \<and> digit_char n = c"
proof (cases "n < 10")
  case True
  then have "format_d n = [digit_char n]" by (subst format_d.simps) simp
  with True show ?thesis by simp
next
  case False
  then have "2 \<le> length (format_d n)" using format_d_length [of n] by simp
  with False show ?thesis by auto
qed

lemma format_d_single:
  "format_d n = ''0'' \<longleftrightarrow> n = 0" "format_d n = ''1'' \<longleftrightarrow> n = 1" "format_d n = ''2'' \<longleftrightarrow> n = 2"
  using digit_char_lt10 [of n] by (auto simp: format_d_char digit_char_def)

lemma split_at_dot:
  assumes "x \<notin> set xs" "xs \<noteq> []"
  shows "xs @ x # ys = [c, x, d] \<longleftrightarrow> xs = [c] \<and> ys = [d]"
proof (cases xs)
  case Nil
  with assms show ?thesis by simp
next
  case (Cons h t)
  with assms show ?thesis by (cases t) auto
qed

lemma supported_version:
  "format_version_string major minor \<in> {''2.0'', ''2.1''} \<longleftrightarrow>
   major = 2 \<and> (minor = 0 \<or> minor = 1)"
proof -
  have u: "unat major = 2 \<longleftrightarrow> major = 2" "unat minor = 0 \<longleftrightarrow> minor = 0"
    "unat minor = Suc 0 \<longleftrightarrow> minor = 1"
    using word_unat_eq_iff [of major 2] word_unat_eq_iff [of minor 0] word_unat_eq_iff [of minor 1]
    by simp_all
  have ne: "format_d (unat major) \<noteq> []" by (subst format_d.simps) simp
  note sp = split_at_dot [OF format_d_no_dot ne, of "format_d (unat minor)"]
  have "format_version_string major minor = ''2.0'' \<longleftrightarrow> major = 2 \<and> minor = 0"
    using sp [of "CHR ''2''" "CHR ''0''"]
    by (simp add: format_version_string_def format_d_single u)
  moreover have "format_version_string major minor = ''2.1'' \<longleftrightarrow> major = 2 \<and> minor = 1"
    using sp [of "CHR ''2''" "CHR ''1''"]
    by (simp add: format_version_string_def format_d_single u)
  ultimately show ?thesis by auto
qed

lemma header_members:
  "n \<le> length file \<Longrightarrow> off + k \<le> n \<Longrightarrow>
   member (take n file) off k = take k (drop off file)"
  by (simp add: member_def drop_take min_def)

lemma header_member_0: "n \<le> length file \<Longrightarrow> k \<le> n \<Longrightarrow> member (take n file) 0 k = take k file"
  by (simp add: member_def min_def)

lemma DataBlockFile_ReadFileObject_cases:
  "DataBlockFile_ReadFileObject file =
    (if length file < 8192 then Inl (ParseError UnableToReadStructure)
     else if header_signature file \<noteq> 0xC104CAC3
       then Inl (ParseError (UnsupportedSignature (header_signature file)))
     else if \<not> (header_major_version file = 2 \<and> header_minor_version file \<in> {0, 1})
       then Inl (ParseError (UnsupportedVersion
              (format_version_string (header_major_version file) (header_minor_version file))))
     else Inr \<lparr>block_size_of = le_word (take 4 (drop 12 file)),
               format_version =
                 format_version_string (header_major_version file) (header_minor_version file),
               number_of_entries = le_word (take 4 (drop 16 file)),
               file_object = file\<rparr>)"
proof (cases "length file < 8192")
  case True
  then show ?thesis
    by (simp add: DataBlockFile_ReadFileObject_def DataBlockFile_ReadFileHeader_def
        ReadStructure_def DataBlockFile_FILE_HEADER_SIZE_def)
next
  case False
  then have len: "8192 \<le> length file" by simp
  have rd: "ReadStructure file (Some 0) DataBlockFile_FILE_HEADER_SIZE =
            Inr (take 8192 file)"
    using len by (simp add: ReadStructure_def DataBlockFile_FILE_HEADER_SIZE_def)
  have m: "member (take 8192 file) 0 4 = take 4 file"
    "member (take 8192 file) 4 2 = take 2 (drop 4 file)"
    "member (take 8192 file) 6 2 = take 2 (drop 6 file)"
    "member (take 8192 file) 12 4 = take 4 (drop 12 file)"
    "member (take 8192 file) 16 4 = take 4 (drop 16 file)"
    using len by (simp_all add: header_members header_member_0)
  define ok where
    "ok = (format_version_string (le_word (take 2 (drop 6 file))) (le_word (take 2 (drop 4 file)))
             \<in> {''2.0'', ''2.1''})"
  have hdr: "DataBlockFile_ReadFileHeader file =
    (if (le_word (take 4 file) :: 32 word) \<noteq> DataBlockFile_SIGNATURE
       then Inl (ParseError (UnsupportedSignature (le_word (take 4 file))))
     else if \<not> ok
       then Inl (ParseError (UnsupportedVersion
              (format_version_string (le_word (take 2 (drop 6 file)))
                 (le_word (take 2 (drop 4 file))))))
     else Inr \<lparr>block_size_of = le_word (take 4 (drop 12 file)),
               format_version =
                 format_version_string (le_word (take 2 (drop 6 file)))
                   (le_word (take 2 (drop 4 file))),
               number_of_entries = le_word (take 4 (drop 16 file)),
               file_object = file\<rparr>)"
    unfolding ok_def by (simp add: DataBlockFile_ReadFileHeader_def rd m Let_def)
  have ok: "ok = (header_major_version file = 2 \<and> header_minor_version file \<in> {0, 1})"
    unfolding ok_def supported_version header_major_version_def header_minor_version_def
    by simp
  show ?thesis
    using False
    by (simp add: DataBlockFile_ReadFileObject_def hdr ok header_signature_def
        DataBlockFile_SIGNATURE_def)
       (simp add: header_major_version_def header_minor_version_def)
qed


lemma IndexFile_ReadFileObject_cases:
  "IndexFile_ReadFileObject file =
    (if length file < 256 then Inl (ParseError UnableToReadStructure)
     else if header_signature file \<noteq> 0xC103CAC3
       then Inl (ParseError (UnsupportedSignature (header_signature file)))
     else if \<not> (header_major_version file = 2 \<and> header_minor_version file \<in> {0, 1})
       then Inl (ParseError (UnsupportedVersion
              (format_version_string (header_major_version file) (header_minor_version file))))
     else if length file < 368 then Inl (ParseError UnableToReadStructure)
     else Inr \<lparr>index_creation_time = le_word (take 8 (drop 40 file)),
               index_format_version =
                 format_version_string (header_major_version file) (header_minor_version file),
               index_table = projr (ReadIndexTable 0 (drop 368 file) [])\<rparr>)"
proof (cases "length file < 256")
  case True
  then show ?thesis
    by (simp add: IndexFile_ReadFileObject_def IndexFile_ReadFileHeader_def
        ReadStructure_def IndexFile_FILE_HEADER_SIZE_def)
next
  case False
  then have len: "256 \<le> length file" by simp
  have rd: "ReadStructure file (Some 0) IndexFile_FILE_HEADER_SIZE = Inr (take 256 file)"
    using len by (simp add: ReadStructure_def IndexFile_FILE_HEADER_SIZE_def)
  have m: "member (take 256 file) 0 4 = take 4 file"
    "member (take 256 file) 4 2 = take 2 (drop 4 file)"
    "member (take 256 file) 6 2 = take 2 (drop 6 file)"
    "member (take 256 file) 40 8 = take 8 (drop 40 file)"
    using len by (simp_all add: header_members header_member_0)
  define ok where
    "ok = (format_version_string (le_word (take 2 (drop 6 file))) (le_word (take 2 (drop 4 file)))
             \<in> {''2.0'', ''2.1''})"
  have hdr: "IndexFile_ReadFileHeader file =
    (if (le_word (take 4 file) :: 32 word) \<noteq> IndexFile_SIGNATURE
       then Inl (ParseError (UnsupportedSignature (le_word (take 4 file))))
     else if \<not> ok
       then Inl (ParseError (UnsupportedVersion
              (format_version_string (le_word (take 2 (drop 6 file)))
                 (le_word (take 2 (drop 4 file))))))
     else Inr (format_version_string (le_word (take 2 (drop 6 file)))
                 (le_word (take 2 (drop 4 file))),
               le_word (take 8 (drop 40 file))))"
    unfolding ok_def by (simp add: IndexFile_ReadFileHeader_def rd m Let_def)
  have ok: "ok = (header_major_version file = 2 \<and> header_minor_version file \<in> {0, 1})"
    unfolding ok_def supported_version header_major_version_def header_minor_version_def
    by simp
  have lru: "IndexFile_ReadLRUData file IndexFile_FILE_HEADER_SIZE =
             (if length file < 368 then Inl (ParseError UnableToReadStructure) else Inr ())"
    by (simp add: IndexFile_ReadLRUData_def ReadStructure_def IndexFile_FILE_HEADER_SIZE_def
        IndexFile_LRU_DATA_SIZE_def not_less [symmetric])
  obtain t where tbl: "ReadIndexTable 0 (drop 368 file) [] = Inr t"
    by (simp add: ReadIndexTable_general)
  have sz: "IndexFile_FILE_HEADER_SIZE + IndexFile_LRU_DATA_SIZE = 368"
    by (simp add: IndexFile_FILE_HEADER_SIZE_def IndexFile_LRU_DATA_SIZE_def)
  show ?thesis
    using False
    by (simp add: IndexFile_ReadFileObject_def hdr ok lru sz tbl header_signature_def
        IndexFile_SIGNATURE_def)
       (simp add: header_major_version_def header_minor_version_def)
qed

text \<open>
  Claim C9, amended. Both readers check the header in the order of the code: a file too
  short for the header cannot be read; then the signature is compared with the magic of
  the reader (0xC104CAC3 for a data block file, 0xC103CAC3 for the index file) and a
  difference is a signature error; only when the signature matches is the version
  compared, and a version other than 2.0 and 2.1 is a version error; otherwise opening a
  data block file succeeds, and opening the index file succeeds when the 112 bytes of the
  LRU block that follow the header are there too.
\<close>

theorem ReadFileObject_validation:
  "DataBlockFile_ReadFileObject data =
    (if length data < 8192 then Inl (ParseError UnableToReadStructure)
     else if header_signature data \<noteq> 0xC104CAC3
       then Inl (ParseError (UnsupportedSignature (header_signature data)))
     else if \<not> (header_major_version data = 2 \<and> header_minor_version data \<in> {0, 1})
       then Inl (ParseError (UnsupportedVersion
              (format_version_string (header_major_version data) (header_minor_version data))))
     else Inr \<lparr>block_size_of = le_word (take 4 (drop 12 data)),
               format_version =
                 format_version_string (header_major_version data) (header_minor_version data),
               number_of_entries = le_word (take 4 (drop 16 data)),
               file_object = data\<rparr>) \<and>
   IndexFile_ReadFileObject index =
    (if length index < 256 then Inl (ParseError UnableToReadStructure)
     else if header_signature index \<noteq> 0xC103CAC3
       then Inl (ParseError (UnsupportedSignature (header_signature index)))
     else if \<not> (header_major_version index = 2 \<and> header_minor_version index \<in> {0, 1})
       then Inl (ParseError (UnsupportedVersion
              (format_version_string (header_major_version index) (header_minor_version index))))
     else if length index < 368 then Inl (ParseError UnableToReadStructure)
     else Inr \<lparr>index_creation_time = le_word (take 8 (drop 40 index)),
               index_format_version =
                 format_version_string (header_major_version index) (header_minor_version index),
               index_table = projr (ReadIndexTable 0 (drop 368 index) [])\<rparr>)"
  by (simp only: DataBlockFile_ReadFileObject_cases IndexFile_ReadFileObject_cases simp_thms)


lemma example_data_file_signature: "header_signature (example_data_file es) = 0xC104CAC3"
  by (simp add: header_signature_def example_data_file_def DataBlockFile_SIGNATURE_def)

lemma example_data_file_version:
  "header_major_version (example_data_file es) = 2" "header_minor_version (example_data_file es) = 0"
  by (simp_all add: header_major_version_def header_minor_version_def example_data_file_def le_word_def)

lemmas example_data_file_fields = example_data_file_signature example_data_file_version

lemma example_index_signature: "header_signature (example_index table) = 0xC103CAC3"
  by (simp add: header_signature_def example_index_def IndexFile_SIGNATURE_def)

lemma example_index_version:
  "header_major_version (example_index table) = 2" "header_minor_version (example_index table) = 0"
  by (simp_all add: header_major_version_def header_minor_version_def example_index_def le_word_def)

lemmas example_index_fields = example_index_signature example_index_version

lemma example_index_length: "length (example_index table) = 368 + 4 * length table"
  by (simp add: example_index_def length_concat o_def sum_list_triv)

text \<open>
  The example files have the magic of their reader and version 2.0, and open.
\<close>

theorem ReadFileObject_validation_witness:
  "header_signature (example_data_file []) = 0xC104CAC3 \<and>
   header_major_version (example_data_file []) = 2 \<and>
   header_minor_version (example_data_file []) = 0 \<and>
   (\<exists>f. DataBlockFile_ReadFileObject (example_data_file []) = Inr f) \<and>
   header_signature (example_index []) = 0xC103CAC3 \<and>
   header_major_version (example_index []) = 2 \<and>
   header_minor_version (example_index []) = 0 \<and>
   (\<exists>i. IndexFile_ReadFileObject (example_index []) = Inr i)"
  using ReadFileObject_validation [of "example_data_file []" "example_index []"]
  by (simp add: example_data_file_fields example_index_fields example_data_file_length
      example_index_length)


lemma zero_header:
  "header_signature (replicate n 0) = 0" "header_major_version (replicate n 0) = 0"
  "header_minor_version (replicate n 0) = 0"
  by (simp_all add: header_signature_def header_major_version_def header_minor_version_def
      take_replicate drop_replicate le_word_zeros)

text \<open>
  Claim C9 as stated does not hold: a file of 8192 zero bytes has version 0.0, which is
  neither 2.0 nor 2.1, and neither reader fails with a version error on it. The
  signature is checked first, and the failure is the signature error.
\<close>

theorem version_unsupported_signature_error:
  "header_major_version (replicate 8192 0) = 0 \<and> header_minor_version (replicate 8192 0) = 0 \<and>
   format_version_string 0 0 = ''0.0'' \<and>
   DataBlockFile_ReadFileObject (replicate 8192 0) = Inl (ParseError (UnsupportedSignature 0)) \<and>
   IndexFile_ReadFileObject (replicate 8192 0) = Inl (ParseError (UnsupportedSignature 0))"
  by (simp add: DataBlockFile_ReadFileObject_cases IndexFile_ReadFileObject_cases zero_header
      format_version_string_def format_d.simps digit_char_def)


subsection \<open>The key of a cache entry\<close>




subsection \<open>Opening the data block files and following the chains\<close>

lemma address_data_1:
  "CacheAddress_init 0xA0010000 =
     Inr \<lparr>block_number = Some 0, block_offset = Some 8192, block_size = Some 0,
          filename = Some ''data_1'', is_initialized = True, addr_value = 0xA0010000,
          file_type = 2\<rparr>"
  by code_simp

lemma address_data_2:
  "CacheAddress_init 0xA0020000 =
     Inr \<lparr>block_number = Some 0, block_offset = Some 8192, block_size = Some 0,
          filename = Some ''data_2'', is_initialized = True, addr_value = 0xA0020000,
          file_type = 2\<rparr>"
  by code_simp

lemma example_index_header:
  "take 256 (example_index table) = le_bytes IndexFile_SIGNATURE @ [0, 0, 2, 0] @ replicate 248 0"
  "drop 368 (example_index table) = concat (map le_bytes table)"
  "length (example_index table) = 368 + 4 * length table"
  by (simp_all add: example_index_def length_concat o_def sum_list_triv)

lemma example_index_open:
  "IndexFile_ReadFileObject (example_index table) =
     (case ReadIndexTable 0 (concat (map le_bytes table)) [] of
        Inl e \<Rightarrow> Inl e
      | Inr t \<Rightarrow> Inr \<lparr>index_creation_time = 0, index_format_version = ''2.0'',
                      index_table = t\<rparr>)"
proof -
  have w: "(le_word [0, 0] :: 16 word) = 0" "(le_word [2, 0] :: 16 word) = 2"
    by (simp_all add: le_word_def)
  have h: "IndexFile_ReadFileHeader (example_index table) = Inr (''2.0'', 0)"
    by (simp add: IndexFile_ReadFileHeader_def ReadStructure_def IndexFile_FILE_HEADER_SIZE_def
        example_index_header member_def w version_2_0)
  show ?thesis
    by (simp add: IndexFile_ReadFileObject_def h IndexFile_ReadLRUData_def ReadStructure_def
        IndexFile_FILE_HEADER_SIZE_def IndexFile_LRU_DATA_SIZE_def example_index_header)
qed

lemma ReadIndexTable_le_bytes:
  "ReadIndexTable n (le_bytes w @ bs) acc =
     (if w \<noteq> 0 then
        (case CacheAddress_init w of Inl e \<Rightarrow> Inl e
         | Inr a \<Rightarrow> ReadIndexTable (n + 1) bs (acc @ [(n, a)]))
      else ReadIndexTable (n + 1) bs acc)"
proof -
  obtain b0 b1 b2 b3 where b: "le_bytes w = [b0, b1, b2, b3]"
    by (simp add: le_bytes_def)
  have "le_word [b0, b1, b2, b3] = w" using le_word_le_bytes [of w] by (simp add: b)
  then show ?thesis by (simp add: b)
qed

lemma example_entry_get:
  "ReadCacheEntry \<lparr>block_size_of = s, format_version = v, number_of_entries = n,
                   file_object = example_data_file [example_entry w [c]]\<rparr> (Some 8192) =
   (if c = 0 then [] else if c < 0x80 then [] else [(WARNING, UnableToDecodeKeyAtBlockOffset (Some 8192))],
    Inr \<lparr>creation_time = 0, hash = 0,
         key = (if c = 0 then [] else if c < 0x80 then [unat c] else [0xfffd]),
         next_address = projr (CacheAddress_init w),
         rankings_node = projr (CacheAddress_init 0)\<rparr>)"
proof -
  obtain a where a: "CacheAddress_init w = Inr a" using CacheAddress_init_total by blast
  show ?thesis
    by (simp add: ReadCacheEntry_def example_entry_read example_entry_members a
        CacheAddress_init_zero partition_nul_def decode_ascii_def decode_ascii_replace_def)
qed

lemma chain_loop_bound:
  "chain_loop files ca n out lg = (r, out', lg') \<Longrightarrow>
   \<exists>new more. out' = out @ new \<and> lg' = lg @ more \<and> length new \<le> 64 - n"
proof (induction files ca n out lg rule: chain_loop.induct)
  case (1 files ca n out lg)
  show ?case
  proof (cases "addr_value ca \<noteq> 0 \<and> n < 64")
    case False
    with "1.prems" show ?thesis
      by (subst (asm) chain_loop.simps) (auto split: if_splits)
  next
    case True
    show ?thesis
    proof (cases "get_data_file files (filename ca)")
      case None
      with True "1.prems" show ?thesis
        by (subst (asm) chain_loop.simps) auto
    next
      case (Some f)
      obtain el res where rd: "ReadCacheEntry f (block_offset ca) = (el, res)"
        by (cases "ReadCacheEntry f (block_offset ca)")
      show ?thesis
      proof (cases res)
        case (Inl e)
        with True Some rd "1.prems" show ?thesis
          by (subst (asm) chain_loop.simps) auto
      next
        case (Inr ce)
        show ?thesis
        proof (cases "unicode_decode_ascii (key ce)")
          case (Inl e)
          with True Some rd Inr "1.prems" show ?thesis
            by (subst (asm) chain_loop.simps) auto
        next
          case k: (Inr u)
          show ?thesis
          proof (cases "date_string (creation_time ce)")
            case (Inl e)
            with True Some rd Inr k "1.prems" show ?thesis
              by (subst (asm) chain_loop.simps) auto
          next
            case d: (Inr date)
            from True Some rd Inr k d "1.prems"
            have "chain_loop files (next_address ce) (n + 1) (out @ [(date, key ce)]) (lg @ el)
                  = (r, out', lg')"
              by (subst (asm) chain_loop.simps) auto
            from "1.IH" [OF _ _ Some rd [symmetric] Inr k d this] True
            obtain new more where "out' = (out @ [(date, key ce)]) @ new"
              "lg' = (lg @ el) @ more" "length new \<le> 64 - (n + 1)"
              by auto
            with True show ?thesis by auto
          qed
        qed
      qed
    qed
  qed
qed

lemma chain_loop_cap:
  "addr_value ca \<noteq> 0 \<Longrightarrow> 64 \<le> n \<Longrightarrow>
   chain_loop files ca n out lg = (None, out, lg @ [(ERROR, MaximumChainLengthReached)])"
  by (subst chain_loop.simps) simp

lemma chain_loop_missing:
  "addr_value ca \<noteq> 0 \<Longrightarrow> n < 64 \<Longrightarrow> get_data_file files (filename ca) = None \<Longrightarrow>
   chain_loop files ca n out lg =
     (None, out, lg @ [(WARNING, CacheAddressMissingFilename (addr_value ca))])"
  by (subst chain_loop.simps) simp

lemma chain_loop_step:
  "addr_value ca \<noteq> 0 \<Longrightarrow> n < 64 \<Longrightarrow> get_data_file files (filename ca) = Some f \<Longrightarrow>
   ReadCacheEntry f (block_offset ca) = (el, Inr ce) \<Longrightarrow>
   unicode_decode_ascii (key ce) = Inr u \<Longrightarrow> date_string (creation_time ce) = Inr date \<Longrightarrow>
   chain_loop files ca n out lg =
     chain_loop files (next_address ce) (n + 1) (out @ [(date, key ce)]) (lg @ el)"
  by (subst chain_loop.simps) simp


lemma chain_loop_self:
  assumes "addr_value ca \<noteq> 0" "get_data_file files (filename ca) = Some f"
    "ReadCacheEntry f (block_offset ca) = (el, Inr ce)" "next_address ce = ca"
    "unicode_decode_ascii (key ce) = Inr u" "date_string (creation_time ce) = Inr date"
  shows "n \<le> 64 \<Longrightarrow> chain_loop files ca n out lg =
     (None, out @ replicate (64 - n) (date, key ce),
      lg @ concat (replicate (64 - n) el) @ [(ERROR, MaximumChainLengthReached)])"
proof (induction "64 - n" arbitrary: n out lg)
  case 0
  then have "64 \<le> n" by simp
  with 0 assms(1) show ?case by (simp add: chain_loop_cap)
next
  case (Suc m)
  then have n: "n < 64" "m = 64 - (n + 1)" "64 - n = Suc (64 - (n + 1))" by simp_all
  have "chain_loop files ca n out lg =
        chain_loop files ca (n + 1) (out @ [(date, key ce)]) (lg @ el)"
    using chain_loop_step [OF assms(1) n(1) assms(2,3,5,6)] assms(4) by simp
  also have "\<dots> = (None, (out @ [(date, key ce)]) @ replicate (64 - (n + 1)) (date, key ce),
      (lg @ el) @ concat (replicate (64 - (n + 1)) el) @ [(ERROR, MaximumChainLengthReached)])"
    using Suc.hyps(1) [OF n(2)] n(1) by simp
  finally show ?case
    by (simp only: n(3) replicate_Suc concat.simps append_assoc append_Cons append_Nil)
qed

lemma chains_bound:
  "chains files addresses out lg = (r, out', lg') \<Longrightarrow>
   length out' \<le> length out + 64 * length addresses"
proof (induction addresses arbitrary: out lg)
  case Nil
  then show ?case by simp
next
  case (Cons a addresses)
  obtain r1 o1 l1 where c: "chain_loop files a 0 out lg = (r1, o1, l1)"
    by (cases "chain_loop files a 0 out lg")
  from chain_loop_bound [OF c] have b: "length o1 \<le> length out + 64" by auto
  show ?case
  proof (cases r1)
    case None
    with Cons.prems c have "chains files addresses o1 l1 = (r, out', lg')" by simp
    from Cons.IH [OF this] b show ?thesis by simp
  next
    case (Some e)
    with Cons.prems c b show ?thesis by auto
  qed
qed

lemma open_names:
  "open_data_block_files dir addresses files have_all lg = (l, fs, r) \<Longrightarrow>
   set (map fst fs) \<subseteq>
     set (map fst files) \<union> {n. dir n \<noteq> None \<and> (\<exists>a \<in> set addresses. filename a = Some n)}"
proof (induction dir addresses files have_all lg rule: open_data_block_files.induct)
  case (1 dir files have_all lg)
  then show ?case by simp
next
  case (2 dir a remaining files have_all lg)
  show ?case
  proof (cases "filename a")
    case None
    with "2.prems" show ?thesis by auto
  next
    case (Some name)
    show ?thesis
    proof (cases "name \<in> set (map fst files)")
      case True
      with Some "2.prems" "2.IH"(3) [OF Some] show ?thesis by auto
    next
      case False
      show ?thesis
      proof (cases "dir name")
        case None
        with Some False "2.prems" "2.IH"(1) [OF Some] show ?thesis by auto
      next
        case fl: (Some contents)
        show ?thesis
        proof (cases "DataBlockFile_ReadFileObject contents")
          case (Inl e)
          with Some False fl "2.prems" show ?thesis by auto
        next
          case (Inr f)
          with Some False fl "2.prems" "2.IH"(2) [OF Some _ fl Inr] show ?thesis
            by auto
        qed
      qed
    qed
  qed
qed

lemma open_distinct:
  "open_data_block_files dir addresses files have_all lg = (l, fs, r) \<Longrightarrow>
   distinct (map fst files) \<Longrightarrow> distinct (map fst fs)"
proof (induction dir addresses files have_all lg rule: open_data_block_files.induct)
  case (1 dir files have_all lg)
  then show ?case by simp
next
  case (2 dir a remaining files have_all lg)
  show ?case
  proof (cases "filename a")
    case None
    with "2.prems" show ?thesis by auto
  next
    case (Some name)
    show ?thesis
    proof (cases "name \<in> set (map fst files)")
      case True
      with Some "2.prems" "2.IH"(3) [OF Some] show ?thesis by auto
    next
      case False
      show ?thesis
      proof (cases "dir name")
        case None
        with Some False "2.prems" "2.IH"(1) [OF Some] show ?thesis by auto
      next
        case fl: (Some contents)
        show ?thesis
        proof (cases "DataBlockFile_ReadFileObject contents")
          case (Inl e)
          with Some False fl "2.prems" show ?thesis by auto
        next
          case (Inr f)
          with Some False fl "2.prems" "2.IH"(2) [OF Some _ fl Inr] show ?thesis
            by auto
        qed
      qed
    qed
  qed
qed



lemma ReadIndexTable_le_bytes_end:
  "ReadIndexTable n (le_bytes w) acc =
     (if w \<noteq> 0 then
        (case CacheAddress_init w of Inl e \<Rightarrow> Inl e | Inr a \<Rightarrow> Inr (acc @ [(n, a)]))
      else Inr acc)"
  using ReadIndexTable_le_bytes [of n w "[]" acc] by (simp split: sum.splits)

lemma example_index_one:
  "w \<noteq> 0 \<Longrightarrow> IndexFile_ReadFileObject (example_index [w]) =
     Inr \<lparr>index_creation_time = 0, index_format_version = ''2.0'',
          index_table = [(0, projr (CacheAddress_init w))]\<rparr>"
  using CacheAddress_init_total [of w]
  by (auto simp add: example_index_open ReadIndexTable_le_bytes_end)


lemma example_entry_ascii:
  "ReadCacheEntry \<lparr>block_size_of = 0, format_version = ''2.0'', number_of_entries = 0,
                   file_object = example_data_file [example_entry w [0x61]]\<rparr> (Some 8192) =
   ([], Inr \<lparr>creation_time = 0, hash = 0, key = [97],
         next_address = projr (CacheAddress_init w),
         rankings_node = projr (CacheAddress_init 0)\<rparr>)"
  by (simp add: example_entry_get)

lemma run_self_loop:
  "ParseDirectory directory_self_loop =
     \<lparr>raised = None, printed = replicate 64 (0, [97]),
      log_records = [(ERROR, MaximumChainLengthReached)], opened = [''data_1'']\<rparr>"
proof -
  let ?f = "\<lparr>block_size_of = 0, format_version = ''2.0'', number_of_entries = 0,
             file_object = example_data_file [example_entry 0xA0010000 [0x61]]\<rparr>"
  let ?a = "projr (CacheAddress_init 0xA0010000)"
  let ?ce = "\<lparr>creation_time = 0, hash = 0, key = [97], next_address = ?a,
              rankings_node = projr (CacheAddress_init 0)\<rparr>"
  have c: "chain_loop [(''data_1'', ?f)] ?a 0 [] [] =
      (None, [] @ replicate (64 - 0) (0, key ?ce),
       [] @ concat (replicate (64 - 0) []) @ [(ERROR, MaximumChainLengthReached)])"
    by (rule chain_loop_self [where f = ?f and u = "[97]"])
       (simp_all add: address_data_1 get_data_file_def example_entry_ascii
          unicode_decode_ascii_def date_string_def)
  show ?thesis
    using c
    by (simp add: ParseDirectory_def directory_self_loop_def example_index_one
        example_data_file_open address_data_1)
qed


lemma run_unreferenced_file:
  "ParseDirectory directory_unreferenced_file =
     \<lparr>raised = None, printed = [(0, [97])],
      log_records = [(WARNING, CacheAddressMissingFilename 0xA0020000)],
      opened = [''data_1'']\<rparr>"
proof -
  let ?f = "\<lparr>block_size_of = 0, format_version = ''2.0'', number_of_entries = 0,
             file_object = example_data_file [example_entry 0xA0020000 [0x61]]\<rparr>"
  let ?a = "projr (CacheAddress_init 0xA0010000)"
  let ?b = "projr (CacheAddress_init 0xA0020000)"
  let ?ce = "\<lparr>creation_time = 0, hash = 0, key = [97], next_address = ?b,
              rankings_node = projr (CacheAddress_init 0)\<rparr>"
  have "chain_loop [(''data_1'', ?f)] ?a 0 [] [] =
        chain_loop [(''data_1'', ?f)] (next_address ?ce) (0 + 1) ([] @ [(0, key ?ce)]) ([] @ [])"
    by (rule chain_loop_step [where f = ?f and u = "[97]"])
       (simp_all add: address_data_1 get_data_file_def example_entry_ascii
          unicode_decode_ascii_def date_string_def)
  also have "\<dots> = (None, [(0, [97])], [(WARNING, CacheAddressMissingFilename 0xA0020000)])"
    by (simp add: chain_loop_missing address_data_2 get_data_file_def)
  finally show ?thesis
    by (simp add: ParseDirectory_def directory_unreferenced_file_def example_index_one
        example_data_file_open address_data_1)
qed

lemma ParseDirectory_printed_bound:
  assumes "dir ''index'' = Some index_data" "IndexFile_ReadFileObject index_data = Inr index_file"
  shows "length (printed (ParseDirectory dir)) \<le> 64 * length (index_table index_file)"
proof -
  let ?as = "map snd (index_table index_file)"
  obtain l fs r where op: "open_data_block_files dir ?as [] True [] = (l, fs, r)"
    by (cases "open_data_block_files dir ?as [] True []")
  show ?thesis
  proof (cases r)
    case (Inl e)
    with assms op show ?thesis by (simp add: ParseDirectory_def)
  next
    case (Inr b)
    show ?thesis
    proof (cases b)
      case False
      with assms op Inr show ?thesis by (simp add: ParseDirectory_def)
    next
      case True
      obtain e out lg where c: "chains fs ?as [] l = (e, out, lg)"
        by (cases "chains fs ?as [] l")
      from chains_bound [OF c] have "length out \<le> 64 * length (index_table index_file)"
        by simp
      with assms op Inr True c show ?thesis
        by (cases e) (simp_all add: ParseDirectory_def)
    qed
  qed
qed

lemma directory_self_loop_index:
  "directory_self_loop ''index'' = Some (example_index [0xA0010000])"
  by (simp add: directory_self_loop_def)

lemma directory_unreferenced_file_data_2:
  "directory_unreferenced_file ''data_2'' = Some (example_data_file [example_entry 0 [0x62]])"
  by (simp add: directory_unreferenced_file_def)

text \<open>
  Claim C2. The loop over one chain is a total function: it returns on every input. From
  a starting address it emits at most 64 entries, and when the counter has reached 64
  and the next address is not zero it stops and logs that the maximum chain length was
  reached (with \<open>logging.error\<close>). Hence a run of \<open>ParseDirectory\<close> prints at most 64 lines
  for each slot of the index table. The witness is an entry whose next address is its
  own address: 64 lines, then the log record.
\<close>

theorem chain_at_most_64_hops:
  "(\<exists>r new more. chain_loop files ca 0 out lg = (r, out @ new, lg @ more) \<and> length new \<le> 64) \<and>
   (addr_value ca \<noteq> 0 \<longrightarrow>
      chain_loop files ca 64 out lg = (None, out, lg @ [(ERROR, MaximumChainLengthReached)])) \<and>
   (dir ''index'' = Some index_data \<and> IndexFile_ReadFileObject index_data = Inr index_file \<longrightarrow>
      length (printed (ParseDirectory dir)) \<le> 64 * length (index_table index_file))"
proof -
  obtain r out' lg' where c: "chain_loop files ca 0 out lg = (r, out', lg')"
    by (cases "chain_loop files ca 0 out lg")
  from chain_loop_bound [OF c] c
  have "\<exists>r new more. chain_loop files ca 0 out lg = (r, out @ new, lg @ more) \<and> length new \<le> 64"
    by auto
  then show ?thesis
    using chain_loop_cap [of ca 64 files out lg] ParseDirectory_printed_bound [of dir index_data index_file]
    by simp
qed

theorem chain_at_most_64_hops_witness:
  "addr_value (projr (CacheAddress_init 0xA0010000)) \<noteq> 0 \<and>
   directory_self_loop ''index'' = Some (example_index [0xA0010000]) \<and>
   IndexFile_ReadFileObject (example_index [0xA0010000]) =
     Inr \<lparr>index_creation_time = 0, index_format_version = ''2.0'',
          index_table = [(0, projr (CacheAddress_init 0xA0010000))]\<rparr> \<and>
   length (printed (ParseDirectory directory_self_loop)) \<le> 64 \<and>
   printed (ParseDirectory directory_self_loop) = replicate 64 (0, [0x61]) \<and>
   log_records (ParseDirectory directory_self_loop) = [(ERROR, MaximumChainLengthReached)] \<and>
   raised (ParseDirectory directory_self_loop) = None"
  using chain_at_most_64_hops [of "[]" "projr (CacheAddress_init 0xA0010000)" "[]" "[]"
      directory_self_loop "example_index [0xA0010000]"
      "\<lparr>index_creation_time = 0, index_format_version = ''2.0'',
         index_table = [(0, projr (CacheAddress_init 0xA0010000))]\<rparr>"]
  by (simp add: run_self_loop example_index_one address_data_1
      directory_self_loop_index)

text \<open>
  Claim C10. The data block files that \<open>ParseDirectory\<close> opens have distinct names, exist
  in the directory, and each is the filename of a cache address of the index table. The
  chains are followed with these files only: at a non-zero address whose filename is not
  among them (or that has none) the chain stops, nothing is raised, and a record is
  logged, which is the warning that the filename is missing, or the maximum chain length
  record when the counter has already reached 64. The witness is a directory where the
  entry in \<open>data_1\<close> continues in \<open>data_2\<close>, a file that exists and that no slot names.
\<close>

theorem ParseDirectory_opens_table_files:
  "distinct (opened (ParseDirectory dir)) \<and>
   (\<forall>name \<in> set (opened (ParseDirectory dir)). dir name \<noteq> None \<and>
      (\<exists>index_data index_file. dir ''index'' = Some index_data \<and>
         IndexFile_ReadFileObject index_data = Inr index_file \<and>
         (\<exists>a \<in> set (map snd (index_table index_file)). filename a = Some name))) \<and>
   (addr_value ca \<noteq> 0 \<and> filename ca \<notin> set (map (Some \<circ> fst) files) \<longrightarrow>
      chain_loop files ca n out lg =
        (None, out,
         lg @ [if 64 \<le> n then (ERROR, MaximumChainLengthReached)
               else (WARNING, CacheAddressMissingFilename (addr_value ca))]))"
proof -
  have stop: "chain_loop files ca n out lg =
        (None, out,
         lg @ [if 64 \<le> n then (ERROR, MaximumChainLengthReached)
               else (WARNING, CacheAddressMissingFilename (addr_value ca))])"
    if "addr_value ca \<noteq> 0" "filename ca \<notin> set (map (Some \<circ> fst) files)"
  proof -
    have "get_data_file files (filename ca) = None"
    proof (cases "filename ca")
      case None
      then show ?thesis by (simp add: get_data_file_def)
    next
      case (Some name)
      with that(2) have "name \<notin> fst ` set files" by force
      with Some show ?thesis by (simp add: get_data_file_def map_of_eq_None_iff)
    qed
    with that(1) show ?thesis
      by (cases "64 \<le> n") (simp_all add: chain_loop_cap chain_loop_missing)
  qed
  have op: "distinct (opened (ParseDirectory dir)) \<and>
   (\<forall>name \<in> set (opened (ParseDirectory dir)). dir name \<noteq> None \<and>
      (\<exists>index_data index_file. dir ''index'' = Some index_data \<and>
         IndexFile_ReadFileObject index_data = Inr index_file \<and>
         (\<exists>a \<in> set (map snd (index_table index_file)). filename a = Some name)))"
  proof (cases "dir ''index''")
    case None
    then show ?thesis by (simp add: ParseDirectory_def)
  next
    case (Some index_data)
    show ?thesis
    proof (cases "IndexFile_ReadFileObject index_data")
      case (Inl e)
      with Some show ?thesis by (simp add: ParseDirectory_def)
    next
      case (Inr index_file)
      let ?as = "map snd (index_table index_file)"
      obtain l fs r where o: "open_data_block_files dir ?as [] True [] = (l, fs, r)"
        by (cases "open_data_block_files dir ?as [] True []")
      have "opened (ParseDirectory dir) = map fst fs"
        using Some Inr o
        by (simp add: ParseDirectory_def split: sum.splits prod.splits option.splits)
      with open_names [OF o] open_distinct [OF o] Some Inr show ?thesis by auto
    qed
  qed
  from op stop show ?thesis by blast
qed

theorem ParseDirectory_opens_table_files_witness:
  "opened (ParseDirectory directory_unreferenced_file) = [''data_1''] \<and>
   directory_unreferenced_file ''data_2'' \<noteq> None \<and>
   addr_value (projr (CacheAddress_init 0xA0020000)) \<noteq> 0 \<and>
   filename (projr (CacheAddress_init 0xA0020000)) = Some ''data_2'' \<and>
   chain_loop
     [(''data_1'', \<lparr>block_size_of = 0, format_version = ''2.0'', number_of_entries = 0,
        file_object = example_data_file [example_entry 0xA0020000 [0x61]]\<rparr>)]
     (projr (CacheAddress_init 0xA0020000)) 1 [(0, [0x61])] [] =
     (None, [(0, [0x61])], [(WARNING, CacheAddressMissingFilename 0xA0020000)]) \<and>
   printed (ParseDirectory directory_unreferenced_file) = [(0, [0x61])] \<and>
   log_records (ParseDirectory directory_unreferenced_file) =
     [(WARNING, CacheAddressMissingFilename 0xA0020000)] \<and>
   raised (ParseDirectory directory_unreferenced_file) = None"
  using ParseDirectory_opens_table_files [of directory_unreferenced_file
      "projr (CacheAddress_init 0xA0020000)"
      "[(''data_1'', \<lparr>block_size_of = 0, format_version = ''2.0'', number_of_entries = 0,
        file_object = example_data_file [example_entry 0xA0020000 [0x61]]\<rparr>)]"
      1 "[(0, [0x61])]" "[]"]
  by (simp add: run_unreferenced_file address_data_2
      directory_unreferenced_file_data_2)






end
